theory Spec2Isabelle
  imports Complex_Main "HOL-Library.Log_Nat"
begin

text \<open>
  The connectivity service of the application: \<open>ConnectivityService\<close> of
  \<open>src/app/services/connectivity.service.ts\<close>, and the two other versions of that class in
  the repository, \<open>part_002\<close> (a fallback list of http endpoints and a guard against a
  second check) and \<open>part_003\<close> (the fallback list, no guard). The three share
  \<open>checkEndpoint\<close>, \<open>updateResponseTimeTracking\<close>, \<open>addToHistory\<close> and the statistics. A
  function that does not say otherwise is that of \<open>connectivity.service.ts\<close>; the functions
  of the other two carry the suffixes \<open>_2\<close> and \<open>_3\<close>.
\<close>

section \<open>JavaScript numbers\<close>

text \<open>
  A JavaScript number is an IEEE 754 binary64 value. The counters and the rounded response
  times of the service are integers far below \<open>2^53\<close>, where binary64 arithmetic is exact, so
  they are modelled by \<open>nat\<close> and \<open>int\<close>. Where the service computes with fractions
  (\<open>successful / total\<close>, \<open>(...) * 100\<close>, \<open>total / onlineRecords.length\<close>), reads
  \<open>performance.now()\<close> or subtracts two such readings, the value goes through \<open>binary64\<close>,
  the rounding of the exact result to the nearest representable value, ties to the even
  significand (53 bits; the smallest exponent is that of the subnormal numbers; overflow to
  Infinity is not modelled, no operand of the service comes near \<open>2^1024\<close>).
\<close>

definition round_half_even :: "rat \<Rightarrow> int" where
  "round_half_even m =
     (let f = \<lfloor>m\<rfloor>; d = m - of_int f
      in if d < 1 / 2 then f else if 1 / 2 < d then f + 1 else if even f then f else f + 1)"

definition binary64 :: "rat \<Rightarrow> rat" where
  "binary64 x =
     (if x = 0 then 0
      else let a = \<bar>x\<bar>;
               (p, q) = quotient_of a;
               k = bitlen p - bitlen q;
               e = max (- 1022) (if 2 powi k \<le> a then k else k - 1);
               u = 2 powi (e - 52)
           in sgn x * of_int (round_half_even (a / u)) * u)"

text \<open>\<open>Math.round\<close>: the nearest integer, a tie going up.\<close>

definition Math_round :: "rat \<Rightarrow> int" where
  "Math_round x = \<lfloor>x + 1 / 2\<rfloor>"

text \<open>
  \<open>Array.prototype.slice(start)\<close>: a negative \<open>start\<close> counts from the end and is clamped
  at the beginning of the array, a \<open>start\<close> beyond the end gives the empty array.
\<close>

definition slice :: "int \<Rightarrow> 'a list \<Rightarrow> 'a list" where
  "slice start xs =
     (let len = int (length xs);
          k = (if start < 0 then max (len + start) 0 else min start len)
      in drop (nat k) xs)"

section \<open>Data model\<close>

text \<open>
  The three interfaces of the source. The fields of \<open>ConnectivityStatus\<close> and of
  \<open>ConnectionRecord\<close> carry the suffixes \<open>_st\<close> and \<open>_rec\<close>, the plain names being those of
  the signals of the service. An optional field (\<open>timeout?\<close>, \<open>error?\<close>) and a field that can
  be \<open>null\<close> are options. A \<open>Date\<close> is its time value, a whole number of milliseconds.
\<close>

type_synonym Date = int

record ConnectivityEndpoint =
  name :: string
  url :: string
  expectedStatus :: "int list"
  timeout :: "nat option"

record ConnectivityStatus =
  isOnline_st :: bool
  lastChecked_st :: "Date option"
  responseTime_st :: "int option"
  endpoint_st :: "string option"
  error_st :: "string option"

record ConnectionRecord =
  timestamp :: Date
  isOnline_rec :: bool
  responseTime_rec :: "int option"
  endpoint_rec :: "string option"
  error_rec :: "string option"

text \<open>The part of a \<open>fetch\<close> response that \<open>checkEndpoint\<close> reads.\<close>

datatype ResponseType = Basic | Cors | Default | ErrorType | Opaque | OpaqueRedirect

record Response =
  rtype :: ResponseType
  status :: int

text \<open>
  What the network does with one request: the promise of \<open>fetch\<close> is fulfilled with a
  response after a latency, or rejected (a \<open>TypeError\<close>: DNS failure, refused connection)
  after a latency, or never settles by itself. Latencies are in microseconds.
\<close>

datatype fetch_behaviour = Resolves nat Response | Rejects nat | Pending

datatype js_error = TypeError | AbortError | UnexpectedStatus int

text \<open>
  The browser around the service: \<open>net n u\<close> is the behaviour of the \<open>n\<close>-th request the
  page issues (counting from 0) when it goes to the URL \<open>u\<close>; \<open>window.location\<close>; and
  \<open>navigator.onLine\<close> at construction time.
\<close>

record environment =
  net :: "nat \<Rightarrow> string \<Rightarrow> fetch_behaviour"
  location_protocol :: string
  location_hostname :: string
  navigator_onLine :: bool

text \<open>
  The state. \<open>clock\<close> is the time in microseconds since the page was loaded, and \<open>fetched\<close>
  the URLs requested so far, oldest first: they belong to the browser and are there to
  state what a probe does on the network. The other fields are the private fields of the
  class \<open>ConnectivityService\<close>: the two endpoint lists (the service of
  \<open>connectivity.service.ts\<close> has no fallback list and never reads that field) and the
  signals behind the public read-only signals of the same names.
\<close>

record browser =
  clock :: nat
  fetched :: "string list"

record ConnectivityService = browser +
  endpoints :: "ConnectivityEndpoint list"
  fallbackEndpoints :: "ConnectivityEndpoint list"
  isOnline :: bool
  lastChecked :: "Date option"
  responseTime :: "int option"
  currentEndpoint :: "string option"
  error :: "string option"
  isChecking :: bool
  totalChecks :: nat
  successfulChecks :: nat
  connectionHistory :: "ConnectionRecord list"
  minResponseTime :: "int option"
  maxResponseTime :: "int option"

text \<open>
  \<open>performance.now()\<close> reads the clock in milliseconds, as a binary64 value; \<open>new Date()\<close>
  reads it in whole milliseconds (the time origin of the page is taken as the epoch).
  Synchronous code takes no time: the clock advances only while the service awaits a
  request, or between two events.
\<close>

definition performance_now :: "ConnectivityService \<Rightarrow> rat" where
  "performance_now s = binary64 (of_nat (clock s) / 1000)"

definition new_Date :: "ConnectivityService \<Rightarrow> Date" where
  "new_Date s = int (clock s div 1000)"

section \<open>Statistics\<close>

definition uptimePercentage :: "ConnectivityService \<Rightarrow> int" where
  "uptimePercentage s =
     (let total = totalChecks s; successful = successfulChecks s
      in if total > 0
         then Math_round (binary64 (binary64 (of_nat successful / of_nat total) * 100))
         else 0)"

definition successRate :: "ConnectivityService \<Rightarrow> int" where
  "successRate s =
     (let total = totalChecks s; successful = successfulChecks s
      in if total > 0
         then Math_round (binary64 (binary64 (of_nat successful / of_nat total) * 100))
         else 0)"

text \<open>
  \<open>r.isOnline && r.responseTime\<close> is truthy when the record is online and its response time
  is neither \<open>null\<close> nor \<open>0\<close>; \<open>r.responseTime || 0\<close> reads \<open>null\<close> as \<open>0\<close>.
\<close>

definition truthy :: "int option \<Rightarrow> bool" where
  "truthy v = (case v of None \<Rightarrow> False | Some n \<Rightarrow> n \<noteq> 0)"

definition averageResponseTime :: "ConnectivityService \<Rightarrow> int" where
  "averageResponseTime s =
     (let onlineRecords =
            filter (\<lambda>r. isOnline_rec r \<and> truthy (responseTime_rec r)) (connectionHistory s)
      in if length onlineRecords = 0 then 0
         else let total =
                    foldl (\<lambda>sum r. sum + (case responseTime_rec r of None \<Rightarrow> 0 | Some n \<Rightarrow> n))
                      0 onlineRecords
              in Math_round (binary64 (of_int total / of_nat (length onlineRecords))))"

section \<open>Bookkeeping\<close>

definition updateResponseTimeTracking :: "int \<Rightarrow> ConnectivityService \<Rightarrow> ConnectivityService" where
  "updateResponseTimeTracking rt s =
     (let s1 = s\<lparr>minResponseTime :=
                   (case minResponseTime s of
                      None \<Rightarrow> Some rt
                    | Some current \<Rightarrow> if rt < current then Some rt else Some current)\<rparr>
      in s1\<lparr>maxResponseTime :=
                (case maxResponseTime s1 of
                   None \<Rightarrow> Some rt
                 | Some current \<Rightarrow> if rt > current then Some rt else Some current)\<rparr>)"

definition addToHistory :: "ConnectionRecord \<Rightarrow> ConnectivityService \<Rightarrow> ConnectivityService" where
  "addToHistory record s =
     s\<lparr>connectionHistory :=
         (let newHistory = connectionHistory s @ [record] in slice (- 100) newHistory)\<rparr>"

section \<open>One request\<close>

text \<open>
  \<open>checkEndpoint\<close> arms a timer of \<open>endpoint.timeout || 3000\<close> milliseconds that aborts the
  request, and issues the request. The result is the time after which the returned promise
  settles, and how: \<open>Inr\<close> the response, \<open>Inl\<close> the error thrown. A request that has not
  settled when the timer fires is rejected with an \<open>AbortError\<close>.
\<close>

definition checkEndpoint ::
  "ConnectivityEndpoint \<Rightarrow> fetch_behaviour \<Rightarrow> nat \<times> (js_error + Response)" where
  "checkEndpoint endpoint b =
     (let limit = 1000 * (case timeout endpoint of
                            None \<Rightarrow> 3000
                          | Some t \<Rightarrow> if t = 0 then 3000 else t)
      in case b of
           Resolves d response \<Rightarrow>
             if d < limit
             then (d, if rtype response = Opaque then Inr response
                      else if status response \<in> set (expectedStatus endpoint) then Inr response
                      else Inl (UnexpectedStatus (status response)))
             else (limit, Inl AbortError)
         | Rejects d \<Rightarrow> if d < limit then (d, Inl TypeError) else (limit, Inl AbortError)
         | Pending \<Rightarrow> (limit, Inl AbortError))"

text \<open>Awaiting the promise: the request is logged and the clock moves to the settling time.\<close>

definition await_checkEndpoint ::
  "environment \<Rightarrow> ConnectivityEndpoint \<Rightarrow> ConnectivityService
     \<Rightarrow> (js_error + Response) \<times> ConnectivityService" where
  "await_checkEndpoint env endpoint s =
     (let (d, outcome) = checkEndpoint endpoint (net env (length (fetched s)) (url endpoint))
      in (outcome, s\<lparr>clock := clock s + d, fetched := fetched s @ [url endpoint]\<rparr>))"

section \<open>The probe of \<open>connectivity.service.ts\<close>\<close>

definition endpoints_http :: "ConnectivityEndpoint list" where
  "endpoints_http =
     [\<lparr>name = ''Google'', url = ''http://google.com/generate_204'',
       expectedStatus = [200, 204], timeout = Some 3000\<rparr>,
      \<lparr>name = ''Cloudflare'', url = ''http://cp.cloudflare.com/generate_204'',
       expectedStatus = [200, 204], timeout = Some 3000\<rparr>,
      \<lparr>name = ''Microsoft'', url = ''http://edge-http.microsoft.com/captiveportal/generate_204'',
       expectedStatus = [200, 204], timeout = Some 3000\<rparr>,
      \<lparr>name = ''Ubuntu'', url = ''http://connectivity-check.ubuntu.com'',
       expectedStatus = [200], timeout = Some 3000\<rparr>]"

text \<open>The fields as the class initialises them, on a page that has requested nothing yet.\<close>

definition new_ConnectivityService ::
  "environment \<Rightarrow> ConnectivityEndpoint list \<Rightarrow> ConnectivityEndpoint list \<Rightarrow> ConnectivityService" where
  "new_ConnectivityService env eps fallback =
     \<lparr>clock = 0, fetched = [],
      endpoints = eps, fallbackEndpoints = fallback,
      isOnline = navigator_onLine env, lastChecked = None, responseTime = None,
      currentEndpoint = None, error = None, isChecking = False,
      totalChecks = 0, successfulChecks = 0, connectionHistory = [],
      minResponseTime = None, maxResponseTime = None\<rparr>"

text \<open>
  The statements of the \<open>try\<close> block after the awaited request has succeeded. They are the
  same in \<open>connectivity.service.ts\<close> and in \<open>tryEndpoints\<close> of \<open>part_003\<close>.
\<close>

definition on_success ::
  "ConnectivityEndpoint \<Rightarrow> rat \<Rightarrow> ConnectivityService \<Rightarrow> ConnectivityStatus \<times> ConnectivityService" where
  "on_success endpoint startTime s =
     (let endTime = performance_now s;
          responseTime' = Math_round (binary64 (endTime - startTime));
          s1 = updateResponseTimeTracking responseTime' s;
          s2 = s1\<lparr>isOnline := True, lastChecked := Some (new_Date s1),
                  responseTime := Some responseTime',
                  successfulChecks := successfulChecks s1 + 1, isChecking := False\<rparr>;
          s3 = addToHistory
                 \<lparr>timestamp = new_Date s2, isOnline_rec = True,
                  responseTime_rec = Some responseTime', endpoint_rec = Some (name endpoint),
                  error_rec = None\<rparr> s2
      in (\<lparr>isOnline_st = True, lastChecked_st = Some (new_Date s3),
           responseTime_st = Some responseTime', endpoint_st = Some (name endpoint),
           error_st = None\<rparr>, s3))"

text \<open>
  The statements after the loop (\<open>// If all endpoints failed\<close>), the same in
  \<open>connectivity.service.ts\<close> and in \<open>checkConnectivity\<close> of \<open>part_003\<close>.
\<close>

definition all_failed :: "ConnectivityService \<Rightarrow> ConnectivityStatus \<times> ConnectivityService" where
  "all_failed s =
     (let s1 = s\<lparr>isOnline := False, lastChecked := Some (new_Date s), responseTime := None,
                 error := Some ''All connectivity endpoints failed'', isChecking := False\<rparr>;
          s2 = addToHistory
                 \<lparr>timestamp = new_Date s1, isOnline_rec = False, responseTime_rec = None,
                  endpoint_rec = None,
                  error_rec = Some ''All connectivity endpoints failed''\<rparr> s1
      in (\<lparr>isOnline_st = False, lastChecked_st = Some (new_Date s2), responseTime_st = None,
           endpoint_st = None, error_st = Some ''All connectivity endpoints failed''\<rparr>, s2))"

text \<open>
  The \<open>for\<close> loop of \<open>checkConnectivity\<close>: \<open>Some\<close> the status returned from inside the loop,
  or \<open>None\<close> when the loop ends. The \<open>catch\<close> block logs a warning and continues.
\<close>

fun checkConnectivity_for ::
  "environment \<Rightarrow> rat \<Rightarrow> ConnectivityEndpoint list \<Rightarrow> ConnectivityService
     \<Rightarrow> ConnectivityStatus option \<times> ConnectivityService" where
  "checkConnectivity_for env startTime [] s = (None, s)"
| "checkConnectivity_for env startTime (endpoint # rest) s =
     (let s1 = s\<lparr>currentEndpoint := Some (name endpoint)\<rparr>;
          (outcome, s2) = await_checkEndpoint env endpoint s1
      in case outcome of
           Inr response \<Rightarrow>
             (let (result, s3) = on_success endpoint startTime s2 in (Some result, s3))
         | Inl err \<Rightarrow> checkConnectivity_for env startTime rest s2)"

text \<open>
  The first three statements of \<open>checkConnectivity\<close>, which run as soon as it is called;
  they are the same in \<open>connectivity.service.ts\<close> and in \<open>part_003\<close>.
\<close>

definition begin_check :: "ConnectivityService \<Rightarrow> ConnectivityService" where
  "begin_check s = s\<lparr>isChecking := True, error := None, totalChecks := totalChecks s + 1\<rparr>"

definition checkConnectivity ::
  "environment \<Rightarrow> ConnectivityService \<Rightarrow> ConnectivityStatus \<times> ConnectivityService" where
  "checkConnectivity env s =
     (let s1 = begin_check s;
          startTime = performance_now s1
      in case checkConnectivity_for env startTime (endpoints s1) s1 of
           (Some result, s2) \<Rightarrow> (result, s2)
         | (None, s2) \<Rightarrow> all_failed s2)"

text \<open>
  What happens to the service: the 30-second timer fires or the user asks for a check (both
  call \<open>checkConnectivity\<close>, \<open>manualCheck\<close> does nothing else), the browser reports
  \<open>online\<close> or \<open>offline\<close>, or time passes (in microseconds).
\<close>

datatype event = Check | Online | Offline | Wait nat

fun fire :: "environment \<Rightarrow> event \<Rightarrow> ConnectivityService \<Rightarrow> ConnectivityService" where
  "fire env Check s = snd (checkConnectivity env s)"
| "fire env Online s = s\<lparr>isOnline := True\<rparr>"
| "fire env Offline s = s\<lparr>isOnline := False\<rparr>"
| "fire env (Wait d) s = s\<lparr>clock := clock s + d\<rparr>"

fun run :: "environment \<Rightarrow> event list \<Rightarrow> ConnectivityService \<Rightarrow> ConnectivityService" where
  "run env [] s = s"
| "run env (ev # evs) s = run env evs (fire env ev s)"

text \<open>The statuses that the checks of a run return, in order.\<close>

fun results :: "environment \<Rightarrow> event list \<Rightarrow> ConnectivityService \<Rightarrow> ConnectivityStatus list" where
  "results env [] s = []"
| "results env (Check # evs) s =
     fst (checkConnectivity env s) # results env evs (fire env Check s)"
| "results env (ev # evs) s = results env evs (fire env ev s)"

section \<open>The probe of \<open>part_003\<close>: a fallback list\<close>

definition endpoints_https :: "ConnectivityEndpoint list" where
  "endpoints_https =
     [\<lparr>name = ''Google'', url = ''https://google.com/generate_204'',
       expectedStatus = [200, 204], timeout = Some 3000\<rparr>,
      \<lparr>name = ''Cloudflare'', url = ''https://cp.cloudflare.com/generate_204'',
       expectedStatus = [200, 204], timeout = Some 3000\<rparr>,
      \<lparr>name = ''Microsoft'', url = ''https://edge-http.microsoft.com/captiveportal/generate_204'',
       expectedStatus = [200, 204], timeout = Some 3000\<rparr>,
      \<lparr>name = ''Ubuntu'', url = ''https://connectivity-check.ubuntu.com'',
       expectedStatus = [200], timeout = Some 3000\<rparr>,
      \<lparr>name = ''Apple'', url = ''https://captive.apple.com/hotspot-detect.html'',
       expectedStatus = [200], timeout = Some 3000\<rparr>,
      \<lparr>name = ''Mozilla'', url = ''https://detectportal.firefox.com/success.txt'',
       expectedStatus = [200], timeout = Some 3000\<rparr>]"

definition fallbackEndpoints_http :: "ConnectivityEndpoint list" where
  "fallbackEndpoints_http =
     [\<lparr>name = ''Google (HTTP)'', url = ''http://google.com/generate_204'',
       expectedStatus = [200, 204], timeout = Some 3000\<rparr>,
      \<lparr>name = ''Cloudflare (HTTP)'', url = ''http://cp.cloudflare.com/generate_204'',
       expectedStatus = [200, 204], timeout = Some 3000\<rparr>,
      \<lparr>name = ''Microsoft (HTTP)'',
       url = ''http://edge-http.microsoft.com/captiveportal/generate_204'',
       expectedStatus = [200, 204], timeout = Some 3000\<rparr>,
      \<lparr>name = ''Ubuntu (HTTP)'', url = ''http://connectivity-check.ubuntu.com'',
       expectedStatus = [200], timeout = Some 3000\<rparr>,
      \<lparr>name = ''Apple (HTTP)'', url = ''http://captive.apple.com/hotspot-detect.html'',
       expectedStatus = [200], timeout = Some 3000\<rparr>,
      \<lparr>name = ''Mozilla (HTTP)'', url = ''http://detectportal.firefox.com/success.txt'',
       expectedStatus = [200], timeout = Some 3000\<rparr>]"

fun tryEndpoints_3 ::
  "environment \<Rightarrow> ConnectivityEndpoint list \<Rightarrow> rat \<Rightarrow> ConnectivityService
     \<Rightarrow> ConnectivityStatus \<times> ConnectivityService" where
  "tryEndpoints_3 env [] startTime s =
     (\<lparr>isOnline_st = False, lastChecked_st = Some (new_Date s), responseTime_st = None,
       endpoint_st = None, error_st = Some ''All endpoints failed''\<rparr>, s)"
| "tryEndpoints_3 env (endpoint # rest) startTime s =
     (let s1 = s\<lparr>currentEndpoint := Some (name endpoint)\<rparr>;
          (outcome, s2) = await_checkEndpoint env endpoint s1
      in case outcome of
           Inr response \<Rightarrow> on_success endpoint startTime s2
         | Inl err \<Rightarrow> tryEndpoints_3 env rest startTime s2)"

definition shouldTryHttpFallback :: "environment \<Rightarrow> bool" where
  "shouldTryHttpFallback env =
     (location_protocol env = ''http:'' \<or> location_hostname env = ''localhost'')"

definition checkConnectivity_3 ::
  "environment \<Rightarrow> ConnectivityService \<Rightarrow> ConnectivityStatus \<times> ConnectivityService" where
  "checkConnectivity_3 env s =
     (let s1 = begin_check s;
          startTime = performance_now s1;
          (httpsResult, s2) = tryEndpoints_3 env (endpoints s1) startTime s1
      in if isOnline_st httpsResult then (httpsResult, s2)
         else if shouldTryHttpFallback env
         then (let (httpResult, s3) = tryEndpoints_3 env (fallbackEndpoints s2) startTime s2
               in if isOnline_st httpResult then (httpResult, s3) else all_failed s3)
         else all_failed s2)"

section \<open>The probe of \<open>part_002\<close>: a guard against a second check\<close>

definition on_success_2 ::
  "ConnectivityEndpoint \<Rightarrow> rat \<Rightarrow> ConnectivityService \<Rightarrow> ConnectivityStatus \<times> ConnectivityService" where
  "on_success_2 endpoint startTime s =
     (let endTime = performance_now s;
          responseTime' = Math_round (binary64 (endTime - startTime));
          s1 = updateResponseTimeTracking responseTime' s;
          s2 = s1\<lparr>isOnline := True, lastChecked := Some (new_Date s1),
                  responseTime := Some responseTime',
                  successfulChecks := successfulChecks s1 + 1\<rparr>;
          s3 = addToHistory
                 \<lparr>timestamp = new_Date s2, isOnline_rec = True,
                  responseTime_rec = Some responseTime', endpoint_rec = Some (name endpoint),
                  error_rec = None\<rparr> s2
      in (\<lparr>isOnline_st = True, lastChecked_st = Some (new_Date s3),
           responseTime_st = Some responseTime', endpoint_st = Some (name endpoint),
           error_st = None\<rparr>, s3))"

fun tryEndpoints_2 ::
  "environment \<Rightarrow> ConnectivityEndpoint list \<Rightarrow> rat \<Rightarrow> ConnectivityService
     \<Rightarrow> ConnectivityStatus \<times> ConnectivityService" where
  "tryEndpoints_2 env [] startTime s =
     (\<lparr>isOnline_st = False, lastChecked_st = Some (new_Date s), responseTime_st = None,
       endpoint_st = None, error_st = Some ''All endpoints failed''\<rparr>, s)"
| "tryEndpoints_2 env (endpoint # rest) startTime s =
     (let s1 = s\<lparr>currentEndpoint := Some (name endpoint)\<rparr>;
          (outcome, s2) = await_checkEndpoint env endpoint s1
      in case outcome of
           Inr response \<Rightarrow> on_success_2 endpoint startTime s2
         | Inl err \<Rightarrow> tryEndpoints_2 env rest startTime s2)"

definition all_failed_2 :: "ConnectivityService \<Rightarrow> ConnectivityStatus \<times> ConnectivityService" where
  "all_failed_2 s =
     (let s1 = s\<lparr>isOnline := False, lastChecked := Some (new_Date s), responseTime := None,
                 error := Some ''All connectivity endpoints failed'',
                 totalChecks := totalChecks s + 1, isChecking := False\<rparr>;
          s2 = addToHistory
                 \<lparr>timestamp = new_Date s1, isOnline_rec = False, responseTime_rec = None,
                  endpoint_rec = None,
                  error_rec = Some ''All connectivity endpoints failed''\<rparr> s1
      in (\<lparr>isOnline_st = False, lastChecked_st = Some (new_Date s2), responseTime_st = None,
           endpoint_st = None, error_st = Some ''All connectivity endpoints failed''\<rparr>, s2))"

definition checkConnectivity_2 ::
  "environment \<Rightarrow> ConnectivityService \<Rightarrow> ConnectivityStatus \<times> ConnectivityService" where
  "checkConnectivity_2 env s =
     (if isChecking s
      then (\<lparr>isOnline_st = isOnline s, lastChecked_st = lastChecked s,
             responseTime_st = responseTime s, endpoint_st = currentEndpoint s,
             error_st = error s\<rparr>, s)
      else let s1 = s\<lparr>isChecking := True, error := None\<rparr>;
               startTime = performance_now s1;
               (httpsResult, s2) = tryEndpoints_2 env (endpoints s1) startTime s1
           in if isOnline_st httpsResult
              then (httpsResult, s2\<lparr>totalChecks := totalChecks s2 + 1, isChecking := False\<rparr>)
              else if shouldTryHttpFallback env
              then (let (httpResult, s3) =
                          tryEndpoints_2 env (fallbackEndpoints s2) startTime s2
                    in if isOnline_st httpResult
                       then (httpResult,
                             s3\<lparr>totalChecks := totalChecks s3 + 1, isChecking := False\<rparr>)
                       else all_failed_2 s3)
              else all_failed_2 s2)"

text \<open>
  \<open>checkConnectivity\<close> of \<open>part_002\<close> is suspended at
  \<open>await this.tryEndpoints(this.endpoints, startTime)\<close>. When \<open>tryEndpoints\<close> returns, its
  promise is fulfilled and the rest of \<open>checkConnectivity\<close> is queued as a microtask; the
  code queued before it runs first, on the state below: that of a call which passed the
  guard, at the return of \<open>tryEndpoints\<close>.
\<close>

definition tryEndpoints_returned_2 ::
  "environment \<Rightarrow> ConnectivityService \<Rightarrow> ConnectivityStatus \<times> ConnectivityService" where
  "tryEndpoints_returned_2 env s =
     (let s1 = s\<lparr>isChecking := True, error := None\<rparr>;
          startTime = performance_now s1
      in tryEndpoints_2 env (endpoints s1) startTime s1)"

section \<open>Describing what the network does during a probe\<close>

text \<open>
  \<open>attempt_fails env n endpoint\<close>: the \<open>n\<close>-th request of the page, sent to this endpoint,
  ends in a thrown error. \<open>every_attempt_fails env n eps\<close>: a pass over the list \<open>eps\<close> whose
  first request is the \<open>n\<close>-th of the page fails at every endpoint.
\<close>

definition attempt_fails :: "environment \<Rightarrow> nat \<Rightarrow> ConnectivityEndpoint \<Rightarrow> bool" where
  "attempt_fails env n endpoint = isl (snd (checkEndpoint endpoint (net env n (url endpoint))))"

fun every_attempt_fails :: "environment \<Rightarrow> nat \<Rightarrow> ConnectivityEndpoint list \<Rightarrow> bool" where
  "every_attempt_fails env n [] = True"
| "every_attempt_fails env n (endpoint # rest) =
     (attempt_fails env n endpoint \<and> every_attempt_fails env (Suc n) rest)"

text \<open>
  The time that a pass over the list takes, in microseconds: the settling times of its
  requests, up to and including the first one that succeeds.
\<close>

fun probe_duration :: "environment \<Rightarrow> nat \<Rightarrow> ConnectivityEndpoint list \<Rightarrow> nat" where
  "probe_duration env n [] = 0"
| "probe_duration env n (endpoint # rest) =
     fst (checkEndpoint endpoint (net env n (url endpoint)))
     + (if attempt_fails env n endpoint then probe_duration env (Suc n) rest else 0)"

section \<open>The probe of \<open>connectivity.service.ts\<close>, await by await\<close>

text \<open>
  \<open>checkConnectivity\<close> above runs a check to its end. In the browser the function is
  suspended at each \<open>await\<close>, and until the request settles other code runs: a browser
  event, or another call of \<open>checkConnectivity\<close>, from the timer or from \<open>manualCheck\<close>.
  Here the suspension is explicit. A suspended call remembers its \<open>startTime\<close>, the
  endpoint whose request it awaits, the endpoints after that one, and when and how the
  request settles.
\<close>

record suspended =
  started :: rat
  awaited :: ConnectivityEndpoint
  remaining :: "ConnectivityEndpoint list"
  settles_at :: nat
  settles_as :: "js_error + Response"

type_synonym config = "ConnectivityService \<times> suspended list"

text \<open>
  From the head of the \<open>for\<close> loop to the next \<open>await\<close>: with no endpoint left, the
  statements after the loop; otherwise \<open>currentEndpoint\<close> is set, the request is sent and the
  call is suspended.
\<close>

fun loop_from ::
  "environment \<Rightarrow> rat \<Rightarrow> ConnectivityEndpoint list \<Rightarrow> config \<Rightarrow> config" where
  "loop_from env startTime [] (s, calls) = (snd (all_failed s), calls)"
| "loop_from env startTime (endpoint # rest) (s, calls) =
     (let s1 = s\<lparr>currentEndpoint := Some (name endpoint)\<rparr>;
          (d, outcome) = checkEndpoint endpoint (net env (length (fetched s1)) (url endpoint))
      in (s1\<lparr>fetched := fetched s1 @ [url endpoint]\<rparr>,
          calls @ [\<lparr>started = startTime, awaited = endpoint, remaining = rest,
                     settles_at = clock s1 + d, settles_as = outcome\<rparr>]))"

text \<open>
  \<open>Invoke\<close>: \<open>checkConnectivity\<close> is called and runs to its first \<open>await\<close>. \<open>Settle i\<close>:
  the request of the \<open>i\<close>-th suspended call settles and the call goes on, to its \<open>return\<close>
  or to its next \<open>await\<close>. \<open>GoOnline\<close>, \<open>GoOffline\<close>: the browser events. \<open>Elapse\<close>: time
  passes.
\<close>

datatype action = Invoke | Settle nat | GoOnline | GoOffline | Elapse nat

fun act :: "environment \<Rightarrow> action \<Rightarrow> config \<Rightarrow> config" where
  "act env Invoke (s, calls) =
     (let s1 = begin_check s in loop_from env (performance_now s1) (endpoints s1) (s1, calls))"
| "act env (Settle i) (s, calls) =
     (if i < length calls
      then let c = calls ! i;
               others = take i calls @ drop (Suc i) calls;
               s1 = s\<lparr>clock := max (clock s) (settles_at c)\<rparr>
           in case settles_as c of
                Inr response \<Rightarrow> (snd (on_success (awaited c) (started c) s1), others)
              | Inl err \<Rightarrow> loop_from env (started c) (remaining c) (s1, others)
      else (s, calls))"
| "act env GoOnline (s, calls) = (s\<lparr>isOnline := True\<rparr>, calls)"
| "act env GoOffline (s, calls) = (s\<lparr>isOnline := False\<rparr>, calls)"
| "act env (Elapse d) (s, calls) = (s\<lparr>clock := clock s + d\<rparr>, calls)"

fun exec :: "environment \<Rightarrow> action list \<Rightarrow> config \<Rightarrow> config" where
  "exec env [] c = c"
| "exec env (a # as) c = exec env as (act env a c)"

text \<open>
  The number of requests that a pass over a list sends when its first request is the
  \<open>n\<close>-th of the page; and the state in which the call is left after the loop.
\<close>

fun attempts :: "environment \<Rightarrow> nat \<Rightarrow> ConnectivityEndpoint list \<Rightarrow> nat" where
  "attempts env n [] = 0"
| "attempts env n (endpoint # rest) =
     (if attempt_fails env n endpoint then Suc (attempts env (Suc n) rest) else 1)"

definition finish :: "ConnectivityStatus option \<times> ConnectivityService \<Rightarrow> ConnectivityService" where
  "finish p = (case p of (Some r, s) \<Rightarrow> s | (None, s) \<Rightarrow> snd (all_failed s))"

section \<open>Outcomes, traces and example environments\<close>

text \<open>The exponent that \<open>binary64\<close> gives to a positive number.\<close>

definition exponent :: "rat \<Rightarrow> int" where
  "exponent a =
     (let (p, q) = quotient_of a; k = bitlen p - bitlen q
      in max (- 1022) (if 2 powi k \<le> a then k else k - 1))"

text \<open>
  \<open>failure_recorded s (r, s')\<close>: starting from \<open>s\<close>, a check has returned \<open>r\<close> and left the
  service in \<open>s'\<close>, and what it did is to record one failure.
\<close>

definition failure_recorded ::
  "ConnectivityService \<Rightarrow> ConnectivityStatus \<times> ConnectivityService \<Rightarrow> bool" where
  "failure_recorded s p =
     (let (r, s') = p
      in \<not> isOnline s' \<and> lastChecked s' = Some (new_Date s') \<and> responseTime s' = None
         \<and> error s' = Some ''All connectivity endpoints failed''
         \<and> connectionHistory s' =
             slice (- 100) (connectionHistory s @
               [\<lparr>timestamp = new_Date s', isOnline_rec = False, responseTime_rec = None,
                 endpoint_rec = None,
                 error_rec = Some ''All connectivity endpoints failed''\<rparr>])
         \<and> totalChecks s' = totalChecks s + 1
         \<and> successfulChecks s' = successfulChecks s
         \<and> \<not> isChecking s'
         \<and> r = \<lparr>isOnline_st = False, lastChecked_st = Some (new_Date s'),
                 responseTime_st = None, endpoint_st = None,
                 error_st = Some ''All connectivity endpoints failed''\<rparr>)"

text \<open>
  \<open>success_recorded s endpoint (r, s')\<close>: the same for one success at \<open>endpoint\<close>, with a
  response time that is not negative.
\<close>

definition success_recorded ::
  "ConnectivityService \<Rightarrow> ConnectivityEndpoint \<Rightarrow> ConnectivityStatus \<times> ConnectivityService \<Rightarrow> bool" where
  "success_recorded s endpoint p =
     (let (r, s') = p
      in isOnline s' \<and> lastChecked s' = Some (new_Date s')
         \<and> currentEndpoint s' = Some (name endpoint) \<and> error s' = None
         \<and> (case responseTime s' of
               None \<Rightarrow> False
             | Some rt \<Rightarrow>
                 0 \<le> rt
                 \<and> connectionHistory s' =
                     slice (- 100) (connectionHistory s @
                       [\<lparr>timestamp = new_Date s', isOnline_rec = True,
                         responseTime_rec = Some rt, endpoint_rec = Some (name endpoint),
                         error_rec = None\<rparr>])
                 \<and> r = \<lparr>isOnline_st = True, lastChecked_st = Some (new_Date s'),
                         responseTime_st = Some rt, endpoint_st = Some (name endpoint),
                         error_st = None\<rparr>)
         \<and> totalChecks s' = totalChecks s + 1
         \<and> successfulChecks s' = successfulChecks s + 1
         \<and> \<not> isChecking s')"

text \<open>The response times of the successful checks of a run, oldest first.\<close>

definition successful_times :: "environment \<Rightarrow> event list \<Rightarrow> ConnectivityService \<Rightarrow> int list" where
  "successful_times env evs s =
     List.map_filter (\<lambda>r. if isOnline_st r then responseTime_st r else None) (results env evs s)"

text \<open>The smaller and the larger of a response time and an extremum that may still be \<open>null\<close>.\<close>

definition lower :: "int \<Rightarrow> int option \<Rightarrow> int option" where
  "lower rt m = (case m of None \<Rightarrow> Some rt | Some c \<Rightarrow> Some (min rt c))"

definition higher :: "int \<Rightarrow> int option \<Rightarrow> int option" where
  "higher rt m = (case m of None \<Rightarrow> Some rt | Some c \<Rightarrow> Some (max rt c))"

text \<open>
  The response time that a check started in the state \<open>s\<close> measures when an endpoint
  answers: the two readings of \<open>performance.now()\<close> are doubles, their difference is a
  double, and \<open>Math.round\<close> rounds it.
\<close>

definition measured :: "environment \<Rightarrow> ConnectivityService \<Rightarrow> int" where
  "measured env s =
     Math_round (binary64
       (binary64 (of_nat (clock s + probe_duration env (length (fetched s)) (endpoints s)) / 1000)
        - binary64 (of_nat (clock s) / 1000)))"

text \<open>A network on which every request is refused after 5 ms; the page is served over https.\<close>

definition env_down :: environment where
  "env_down =
     \<lparr>net = (\<lambda>n u. Rejects 5000), location_protocol = ''https:'',
      location_hostname = ''example.org'', navigator_onLine = True\<rparr>"

text \<open>A network on which every request is answered after 20 ms, with an opaque response.\<close>

definition env_up :: environment where
  "env_up =
     \<lparr>net = (\<lambda>n u. Resolves 20000 \<lparr>rtype = Opaque, status = 0\<rparr>),
      location_protocol = ''https:'', location_hostname = ''example.org'',
      navigator_onLine = True\<rparr>"

text \<open>
  A network that answers the first request of the page after 50 ms, the second after 200 ms
  and the third after 30 ms, and refuses every later one after 5 ms.
\<close>

definition env_three :: environment where
  "env_three =
     \<lparr>net = (\<lambda>n u. if n = 0 then Resolves 50000 \<lparr>rtype = Opaque, status = 0\<rparr>
                    else if n = 1 then Resolves 200000 \<lparr>rtype = Opaque, status = 0\<rparr>
                    else if n = 2 then Resolves 30000 \<lparr>rtype = Opaque, status = 0\<rparr>
                    else Rejects 5000),
      location_protocol = ''https:'', location_hostname = ''example.org'',
      navigator_onLine = True\<rparr>"

text \<open>
  The first endpoint of \<open>endpoints_http\<close> never answers; every other URL answers with status
  204 after 42 ms.
\<close>

definition env_second_answers :: environment where
  "env_second_answers =
     \<lparr>net = (\<lambda>n u. if u = ''http://google.com/generate_204'' then Pending
                    else Resolves 42000 \<lparr>rtype = Basic, status = 204\<rparr>),
      location_protocol = ''https:'', location_hostname = ''example.org'',
      navigator_onLine = True\<rparr>"

text \<open>
  The first request of the page is answered after 0.2 ms, every later one after 100 ms; the
  responses are opaque, as those of a \<open>no-cors\<close> request to another origin are.
\<close>

definition env_fast_then_slow :: environment where
  "env_fast_then_slow =
     \<lparr>net = (\<lambda>n u. if n = 0 then Resolves 200 \<lparr>rtype = Opaque, status = 0\<rparr>
                    else Resolves 100000 \<lparr>rtype = Opaque, status = 0\<rparr>),
      location_protocol = ''https:'', location_hostname = ''example.org'',
      navigator_onLine = True\<rparr>"

text \<open>
  A development machine: the page is served from \<open>http://localhost\<close>, every https request is
  refused after 1 ms and every http request is answered after 20 ms.
\<close>

definition env_http_only :: environment where
  "env_http_only =
     \<lparr>net = (\<lambda>n u. if take 5 u = ''https'' then Rejects 1000
                    else Resolves 20000 \<lparr>rtype = Opaque, status = 0\<rparr>),
      location_protocol = ''http:'', location_hostname = ''localhost'',
      navigator_onLine = True\<rparr>"

text \<open>A history that is full, and a record to append to it.\<close>

definition history_full :: "ConnectionRecord list" where
  "history_full =
     map (\<lambda>i. \<lparr>timestamp = of_nat i, isOnline_rec = True, responseTime_rec = Some (int i),
                endpoint_rec = Some ''Google'', error_rec = None\<rparr>) [0..<100]"

definition record_new :: ConnectionRecord where
  "record_new =
     \<lparr>timestamp = 5000, isOnline_rec = False, responseTime_rec = None, endpoint_rec = None,
      error_rec = Some ''All connectivity endpoints failed''\<rparr>"

text \<open>
  What holds of the service and its suspended calls at every moment: each suspended call
  has been counted in \<open>totalChecks\<close> and not in \<open>successfulChecks\<close>, and the history is
  bounded.
\<close>

definition balanced :: "config \<Rightarrow> bool" where
  "balanced c = (successfulChecks (fst c) + length (snd c) \<le> totalChecks (fst c)
                 \<and> length (connectionHistory (fst c)) \<le> 100)"

text \<open>Every record of the history is online exactly when it has a response time.\<close>

definition timed :: "ConnectivityService \<Rightarrow> bool" where
  "timed s = list_all (\<lambda>r. isOnline_rec r = (responseTime_rec r \<noteq> None)) (connectionHistory s)"

text \<open>
  Two calls of \<open>checkConnectivity\<close>, the second made while the first is suspended, and then
  eight times the request of the call that has waited longest settles.
\<close>

definition two_calls :: "action list" where
  "two_calls =
     [Invoke, Invoke, Settle 0, Settle 0, Settle 0, Settle 0, Settle 0, Settle 0, Settle 0,
      Settle 0]"

section \<open>Lemmas\<close>

subsection \<open>Rounding to binary64 is monotone\<close>

lemma binary64_pos:
  "0 < x \<Longrightarrow>
   binary64 x = of_int (round_half_even (x / 2 powi (exponent x - 52))) * 2 powi (exponent x - 52)"
  by (simp add: binary64_def exponent_def Let_def split_beta)

lemma bitlen_powi:
  assumes "0 < p"
  shows "(2::rat) powi (bitlen p - 1) \<le> of_int p \<and> of_int p < (2::rat) powi (bitlen p)"
proof -
  from bitlen_bounds [OF assms] have a: "2 ^ nat (bitlen p - 1) \<le> p" and b: "p < 2 ^ nat (bitlen p)"
    by simp_all
  from assms have p1: "1 \<le> bitlen p" by (auto simp: bitlen_alt_def)
  have "(2::rat) powi (bitlen p - 1) = 2 ^ nat (bitlen p - 1)"
    using p1 by (simp add: power_int_nonneg_exp)
  moreover have "(2::rat) powi (bitlen p) = 2 ^ nat (bitlen p)"
    using p1 by (simp add: power_int_nonneg_exp)
  moreover have "(2::rat) ^ nat (bitlen p - 1) \<le> of_int p"
    using a by (metis of_int_le_iff of_int_numeral of_int_power)
  moreover have "of_int p < (2::rat) ^ nat (bitlen p)"
    using b by (metis of_int_less_iff of_int_numeral of_int_power)
  ultimately show ?thesis by simp
qed

lemma raw_exponent_bounds:
  assumes "0 < a" and q: "quotient_of a = (p, q)"
  shows "(2::rat) powi (bitlen p - bitlen q - 1) < a \<and> a < 2 powi (bitlen p - bitlen q + 1)"
proof -
  from q have qpos: "0 < q" by (rule quotient_of_denom_pos)
  from q have a: "a = of_int p / of_int q" by (rule quotient_of_div)
  with assms(1) qpos have ppos: "0 < p"
    by (simp add: zero_less_divide_iff)
  from bitlen_powi [OF ppos] have p1: "(2::rat) powi (bitlen p - 1) \<le> of_int p"
    and p2: "of_int p < (2::rat) powi (bitlen p)" by simp_all
  from bitlen_powi [OF qpos] have q1: "(2::rat) powi (bitlen q - 1) \<le> of_int q"
    and q2: "of_int q < (2::rat) powi (bitlen q)" by simp_all
  have Q: "(0::rat) < of_int q" using qpos by simp
  have P: "(0::rat) < of_int p" using ppos by simp
  have pw: "(0::rat) < 2 powi n" for n by simp
  have "2 powi (bitlen p - bitlen q - 1) * of_int q < (2::rat) powi (bitlen p - bitlen q - 1) * 2 powi (bitlen q)"
    using q2 pw by (simp add: mult_strict_left_mono)
  also have "\<dots> = 2 powi (bitlen p - 1)"
    by (simp add: power_int_add [symmetric])
  also have "\<dots> \<le> of_int p" by (rule p1)
  finally have l: "(2::rat) powi (bitlen p - bitlen q - 1) < a"
    using Q by (simp add: a pos_less_divide_eq)
  have "of_int p < (2::rat) powi (bitlen p)" by (rule p2)
  also have "\<dots> = 2 powi (bitlen p - bitlen q + 1) * 2 powi (bitlen q - 1)"
    by (simp add: power_int_add [symmetric])
  also have "\<dots> \<le> 2 powi (bitlen p - bitlen q + 1) * of_int q"
    using q1 pw by (simp add: mult_left_mono)
  finally have u: "a < 2 powi (bitlen p - bitlen q + 1)"
    using Q by (simp add: a pos_divide_less_eq)
  from l u show ?thesis by simp
qed

lemma exponent_upper: "0 < a \<Longrightarrow> a < 2 powi (exponent a + 1)"
proof -
  assume a: "0 < a"
  obtain p q where q: "quotient_of a = (p, q)" by (cases "quotient_of a")
  let ?k = "bitlen p - bitlen q"
  from raw_exponent_bounds [OF a q] have u: "a < 2 powi (?k + 1)" by simp
  let ?e0 = "if 2 powi ?k \<le> a then ?k else ?k - 1"
  have "a < 2 powi (?e0 + 1)" using u by (simp add: not_le)
  also have "\<dots> \<le> 2 powi (max (- 1022) ?e0 + 1)"
    by (rule power_int_increasing) simp_all
  finally show ?thesis using q by (simp add: exponent_def Let_def)
qed

lemma exponent_lower: "0 < a \<Longrightarrow> - 1022 < exponent a \<Longrightarrow> 2 powi (exponent a) \<le> a"
proof -
  assume a: "0 < a" and n: "- 1022 < exponent a"
  obtain p q where q: "quotient_of a = (p, q)" by (cases "quotient_of a")
  let ?k = "bitlen p - bitlen q"
  from raw_exponent_bounds [OF a q] have l: "2 powi (?k - 1) < a" by simp
  let ?e0 = "if 2 powi ?k \<le> a then ?k else ?k - 1"
  have e: "exponent a = max (- 1022) ?e0" using q by (simp add: exponent_def Let_def)
  with n have "exponent a = ?e0" by (simp add: max_def split: if_splits)
  moreover have "2 powi ?e0 \<le> a" using l by simp
  ultimately show ?thesis by simp
qed

lemma exponent_least: "- 1022 \<le> exponent a"
  by (simp add: exponent_def Let_def split_beta)

lemma exponent_mono: "0 < a \<Longrightarrow> a \<le> b \<Longrightarrow> exponent a \<le> exponent b"
proof (rule ccontr)
  assume a: "0 < a" and ab: "a \<le> b" and "\<not> exponent a \<le> exponent b"
  then have lt: "exponent b < exponent a" by simp
  with exponent_least [of b] have "- 1022 < exponent a" by simp
  from exponent_lower [OF a this] have "2 powi (exponent a) \<le> a" .
  also note ab
  also have "b < 2 powi (exponent b + 1)" using a ab by (intro exponent_upper) simp
  also have "\<dots> \<le> 2 powi (exponent a)"
    using lt by (intro power_int_increasing) simp_all
  finally show False by simp
qed

lemma round_half_even_int [simp]: "round_half_even (of_int i) = i"
  by (simp add: round_half_even_def)

lemma round_half_even_range:
  "\<lfloor>m\<rfloor> \<le> round_half_even m \<and> round_half_even m \<le> \<lfloor>m\<rfloor> + 1"
  by (simp add: round_half_even_def Let_def)

lemma round_half_even_mono: "m \<le> n \<Longrightarrow> round_half_even m \<le> round_half_even n"
proof (cases "\<lfloor>m\<rfloor> = \<lfloor>n\<rfloor>")
  case False
  assume "m \<le> n"
  then have "\<lfloor>m\<rfloor> \<le> \<lfloor>n\<rfloor>" by (rule floor_mono)
  with False have "\<lfloor>m\<rfloor> + 1 \<le> \<lfloor>n\<rfloor>" by simp
  with round_half_even_range [of m] round_half_even_range [of n] show ?thesis by linarith
next
  case True
  assume "m \<le> n"
  with True show ?thesis
    by (auto simp add: round_half_even_def Let_def)
qed

lemma binary64_mono_pos:
  assumes a: "0 < a" and ab: "a \<le> b"
  shows "binary64 a \<le> binary64 b"
proof -
  from a ab have b: "0 < b" by simp
  let ?ua = "(2::rat) powi (exponent a - 52)" and ?ub = "(2::rat) powi (exponent b - 52)"
  have ua: "0 < ?ua" and ub: "0 < ?ub" by simp_all
  show ?thesis
  proof (cases "exponent a = exponent b")
    case True
    have "a / ?ua \<le> b / ?ua" using ab ua by (simp add: divide_right_mono)
    then have "round_half_even (a / ?ua) \<le> round_half_even (b / ?ua)"
      by (rule round_half_even_mono)
    then have "of_int (round_half_even (a / ?ua)) * ?ua \<le> of_int (round_half_even (b / ?ua)) * ?ua"
      using ua by (simp add: mult_right_mono)
    then show ?thesis using a b True by (simp add: binary64_pos)
  next
    case False
    with exponent_mono [OF a ab] have lt: "exponent a < exponent b" by simp
    have "a / ?ua < 2 powi (exponent a + 1) / ?ua"
      using exponent_upper [OF a] ua by (simp add: divide_strict_right_mono)
    also have "\<dots> = 2 powi 53"
      by (simp add: power_int_diff [symmetric])
    finally have "a / ?ua \<le> of_int (2 ^ 53)" by simp
    then have "round_half_even (a / ?ua) \<le> round_half_even (of_int (2 ^ 53))"
      by (rule round_half_even_mono)
    then have ra: "round_half_even (a / ?ua) \<le> 2 ^ 53" by (simp only: round_half_even_int)
    have "of_int (round_half_even (a / ?ua)) * ?ua \<le> of_int (2 ^ 53) * ?ua"
      using ra ua by (intro mult_right_mono) simp_all
    also have "of_int (2 ^ 53) * ?ua = 2 powi 53 * ?ua" by simp
    also have "\<dots> = 2 powi (53 + (exponent a - 52))"
      by (rule power_int_add [symmetric]) simp
    also have "\<dots> = 2 powi (exponent a + 1)"
      by (rule arg_cong [of _ _ "\<lambda>n. 2 powi n"]) simp
    also have "\<dots> \<le> 2 powi (exponent b)"
      using lt by (intro power_int_increasing) simp_all
    finally have A: "binary64 a \<le> 2 powi (exponent b)" using a by (simp add: binary64_pos)
    from lt exponent_least [of a] have "- 1022 < exponent b" by simp
    from exponent_lower [OF b this] have "2 powi (exponent b) / ?ub \<le> b / ?ub"
      using ub by (simp add: divide_right_mono)
    moreover have "2 powi (exponent b) / ?ub = 2 powi 52"
      by (simp add: power_int_diff [symmetric])
    ultimately have "of_int (2 ^ 52) \<le> b / ?ub" by simp
    then have "round_half_even (of_int (2 ^ 52)) \<le> round_half_even (b / ?ub)"
      by (rule round_half_even_mono)
    then have rb: "2 ^ 52 \<le> round_half_even (b / ?ub)" by (simp only: round_half_even_int)
    have "(2::rat) powi (exponent b) = 2 powi (52 + (exponent b - 52))"
      by (rule arg_cong [of _ _ "\<lambda>n. 2 powi n"]) simp
    also have "\<dots> = 2 powi 52 * ?ub"
      by (rule power_int_add) simp
    also have "\<dots> = of_int (2 ^ 52) * ?ub" by simp
    also have "\<dots> \<le> of_int (round_half_even (b / ?ub)) * ?ub"
      using rb ub by (intro mult_right_mono) simp_all
    finally have B: "2 powi (exponent b) \<le> binary64 b" using b by (simp add: binary64_pos)
    from A B show ?thesis by simp
  qed
qed

lemma binary64_zero [simp]: "binary64 0 = 0"
  by (simp add: binary64_def)

lemma binary64_nonneg: "0 \<le> x \<Longrightarrow> 0 \<le> binary64 x"
proof (cases "x = 0")
  case True
  then show ?thesis by simp
next
  case False
  assume "0 \<le> x"
  with False have x: "0 < x" by simp
  have "0 \<le> x / 2 powi (exponent x - 52)"
    using x by simp
  then have "0 \<le> \<lfloor>x / 2 powi (exponent x - 52)\<rfloor>"
    by simp
  with round_half_even_range [of "x / 2 powi (exponent x - 52)"]
  have "0 \<le> round_half_even (x / 2 powi (exponent x - 52))"
    by linarith
  then show ?thesis using x by (simp add: binary64_pos)
qed

lemma binary64_mono: "0 \<le> a \<Longrightarrow> a \<le> b \<Longrightarrow> binary64 a \<le> binary64 b"
proof (cases "a = 0")
  case True
  assume "a \<le> b"
  with True have "0 \<le> b" by simp
  then show ?thesis using True binary64_nonneg [of b] by simp
next
  case False
  assume "0 \<le> a" "a \<le> b"
  with False show ?thesis by (intro binary64_mono_pos) simp_all
qed

subsection \<open>One iteration\<close>

lemma await_eq:
  "await_checkEndpoint env ep s =
     (snd (checkEndpoint ep (net env (length (fetched s)) (url ep))),
      s\<lparr>clock := clock s + fst (checkEndpoint ep (net env (length (fetched s)) (url ep))),
        fetched := fetched s @ [url ep]\<rparr>)"
  by (simp add: await_checkEndpoint_def split_beta)

lemma for_Cons:
  "checkConnectivity_for env t (ep # eps) s =
     (let a = await_checkEndpoint env ep (s\<lparr>currentEndpoint := Some (name ep)\<rparr>)
      in case fst a of
           Inr resp \<Rightarrow> (Some (fst (on_success ep t (snd a))), snd (on_success ep t (snd a)))
         | Inl err \<Rightarrow> checkConnectivity_for env t eps (snd a))"
  by (simp add: split_beta Let_def split: sum.splits)

lemma checkConnectivity_eq:
  "checkConnectivity env s =
     (let r = checkConnectivity_for env (performance_now s) (endpoints s) (begin_check s)
      in case fst r of Some result \<Rightarrow> (result, snd r) | None \<Rightarrow> all_failed (snd r))"
  by (simp add: checkConnectivity_def begin_check_def Let_def performance_now_def
      split: prod.splits option.splits)

subsection \<open>The bounded history\<close>

lemma length_slice_100: "length (slice (- 100) xs) \<le> 100"
  by (simp add: slice_def Let_def)

lemma slice_100_short: "length xs \<le> 100 \<Longrightarrow> slice (- 100) xs = xs"
  by (simp add: slice_def Let_def)

lemma slice_100_full: "length xs = 100 \<Longrightarrow> slice (- 100) (xs @ [x]) = tl xs @ [x]"
  by (cases xs) (simp_all add: slice_def Let_def)

lemma history_addToHistory:
  "connectionHistory (addToHistory r s) = slice (- 100) (connectionHistory s @ [r])"
  by (simp add: addToHistory_def)

lemma history_await [simp]:
  "connectionHistory (snd (await_checkEndpoint env ep s)) = connectionHistory s"
  by (simp add: await_checkEndpoint_def split: prod.splits)

lemma history_update [simp]:
  "connectionHistory (updateResponseTimeTracking rt s) = connectionHistory s"
  by (simp add: updateResponseTimeTracking_def Let_def)

lemma history_on_success:
  "length (connectionHistory (snd (on_success ep t s))) \<le> 100"
  by (simp add: on_success_def Let_def history_addToHistory length_slice_100)

lemma history_all_failed:
  "length (connectionHistory (snd (all_failed s))) \<le> 100"
  by (simp add: all_failed_def Let_def history_addToHistory length_slice_100)

lemma history_for:
  "length (connectionHistory s) \<le> 100 \<Longrightarrow>
   length (connectionHistory (snd (checkConnectivity_for env t eps s))) \<le> 100"
proof (induction eps arbitrary: s)
  case Nil
  then show ?case by simp
next
  case (Cons ep eps)
  let ?a = "await_checkEndpoint env ep (s\<lparr>currentEndpoint := Some (name ep)\<rparr>)"
  have "length (connectionHistory (snd ?a)) \<le> 100"
    using Cons.prems by simp
  then show ?case
    using Cons.IH [of "snd ?a"] history_on_success [of ep t "snd ?a"]
    by (simp add: for_Cons Let_def del: checkConnectivity_for.simps split: sum.splits)
qed

lemma history_checkConnectivity:
  "length (connectionHistory s) \<le> 100 \<Longrightarrow>
   length (connectionHistory (snd (checkConnectivity env s))) \<le> 100"
  using history_for [of "begin_check s" env "performance_now s" "endpoints s"]
    history_all_failed
  by (simp add: checkConnectivity_eq Let_def begin_check_def split: option.splits)

lemma history_fire:
  "length (connectionHistory s) \<le> 100 \<Longrightarrow> length (connectionHistory (fire env ev s)) \<le> 100"
  by (cases ev) (simp_all add: history_checkConnectivity)

lemma history_run:
  "length (connectionHistory s) \<le> 100 \<Longrightarrow> length (connectionHistory (run env evs s)) \<le> 100"
  by (induction evs arbitrary: s) (simp_all add: history_fire)

subsection \<open>The loop of connectivity.service.ts\<close>

lemma for_fail:
  "every_attempt_fails env (length (fetched s)) eps \<Longrightarrow>
   \<exists>d. checkConnectivity_for env t eps s =
     (None, s\<lparr>clock := clock s + d, fetched := fetched s @ map url eps,
              currentEndpoint := (if eps = [] then currentEndpoint s
                                  else Some (name (last eps)))\<rparr>)"
proof (induction eps arbitrary: s)
  case Nil
  have "checkConnectivity_for env t [] s =
     (None, s\<lparr>clock := clock s + 0, fetched := fetched s @ map url [],
              currentEndpoint := (if [] = ([]::ConnectivityEndpoint list) then currentEndpoint s
                                  else Some (name (last [])))\<rparr>)"
    by simp
  then show ?case by blast
next
  case (Cons ep eps)
  let ?c = "checkEndpoint ep (net env (length (fetched s)) (url ep))"
  let ?s2 = "s\<lparr>currentEndpoint := Some (name ep), clock := clock s + fst ?c,
                 fetched := fetched s @ [url ep]\<rparr>"
  from Cons.prems have f: "isl (snd ?c)" and r: "every_attempt_fails env (length (fetched ?s2)) eps"
    by (simp_all add: attempt_fails_def)
  from Cons.IH [OF r] obtain d where
    d: "checkConnectivity_for env t eps ?s2 =
     (None, ?s2\<lparr>clock := clock ?s2 + d, fetched := fetched ?s2 @ map url eps,
              currentEndpoint := (if eps = [] then currentEndpoint ?s2
                                  else Some (name (last eps)))\<rparr>)"
    by blast
  from f obtain err where e: "snd ?c = Inl err" by (cases "snd ?c") simp_all
  have "checkConnectivity_for env t (ep # eps) s =
     (None, s\<lparr>clock := clock s + (fst ?c + d), fetched := fetched s @ map url (ep # eps),
              currentEndpoint := (if ep # eps = [] then currentEndpoint s
                                  else Some (name (last (ep # eps))))\<rparr>)"
    using d e by (simp add: for_Cons await_eq Let_def del: checkConnectivity_for.simps)
  then show ?case by blast
qed


lemma for_success:
  "every_attempt_fails env (length (fetched s)) pre \<Longrightarrow>
   \<not> attempt_fails env (length (fetched s) + length pre) e \<Longrightarrow>
   \<exists>d. checkConnectivity_for env t (pre @ e # post) s =
     (Some (fst (on_success e t
        (s\<lparr>currentEndpoint := Some (name e), clock := clock s + d, fetched := fetched s @ map url pre @ [url e]\<rparr>))),
      snd (on_success e t
        (s\<lparr>currentEndpoint := Some (name e), clock := clock s + d, fetched := fetched s @ map url pre @ [url e]\<rparr>)))"
proof (induction pre arbitrary: s)
  case Nil
  let ?c = "checkEndpoint e (net env (length (fetched s)) (url e))"
  from Nil.prems obtain resp where e: "snd ?c = Inr resp"
    by (cases "snd ?c") (simp_all add: attempt_fails_def)
  have "checkConnectivity_for env t ([] @ e # post) s =
     (Some (fst (on_success e t
        (s\<lparr>currentEndpoint := Some (name e), clock := clock s + fst ?c, fetched := fetched s @ map url [] @ [url e]\<rparr>))),
      snd (on_success e t
        (s\<lparr>currentEndpoint := Some (name e), clock := clock s + fst ?c, fetched := fetched s @ map url [] @ [url e]\<rparr>)))"
    using e by (simp add: for_Cons await_eq Let_def del: checkConnectivity_for.simps)
  then show ?case by blast
next
  case (Cons ep pre)
  let ?c = "checkEndpoint ep (net env (length (fetched s)) (url ep))"
  let ?s2 = "s\<lparr>currentEndpoint := Some (name ep), clock := clock s + fst ?c,
                 fetched := fetched s @ [url ep]\<rparr>"
  from Cons.prems have f: "isl (snd ?c)"
    and r: "every_attempt_fails env (length (fetched ?s2)) pre"
    and ok: "\<not> attempt_fails env (length (fetched ?s2) + length pre) e"
    by (simp_all add: attempt_fails_def)
  from Cons.IH [OF r ok] obtain d where
    d: "checkConnectivity_for env t (pre @ e # post) ?s2 =
     (Some (fst (on_success e t
        (?s2\<lparr>currentEndpoint := Some (name e), clock := clock ?s2 + d, fetched := fetched ?s2 @ map url pre @ [url e]\<rparr>))),
      snd (on_success e t
        (?s2\<lparr>currentEndpoint := Some (name e), clock := clock ?s2 + d, fetched := fetched ?s2 @ map url pre @ [url e]\<rparr>)))"
    by blast
  from f obtain err where e: "snd ?c = Inl err" by (cases "snd ?c") simp_all
  have "checkConnectivity_for env t ((ep # pre) @ e # post) s =
     (Some (fst (on_success e t
        (s\<lparr>currentEndpoint := Some (name e), clock := clock s + (fst ?c + d), fetched := fetched s @ map url (ep # pre) @ [url e]\<rparr>))),
      snd (on_success e t
        (s\<lparr>currentEndpoint := Some (name e), clock := clock s + (fst ?c + d), fetched := fetched s @ map url (ep # pre) @ [url e]\<rparr>)))"
    using d e by (simp add: for_Cons await_eq Let_def add.assoc del: checkConnectivity_for.simps)
  then show ?case by blast
qed

lemma for_None_iff:
  "fst (checkConnectivity_for env t eps s) = None \<longleftrightarrow>
   every_attempt_fails env (length (fetched s)) eps"
proof (induction eps arbitrary: s)
  case Nil
  show ?case by simp
next
  case (Cons ep eps)
  show ?case
    using Cons.IH
    by (simp add: for_Cons await_eq Let_def attempt_fails_def del: checkConnectivity_for.simps
        split: sum.splits)
qed


lemma first_success_split:
  "\<not> every_attempt_fails env n eps \<Longrightarrow>
   \<exists>pre e post. eps = pre @ e # post \<and> every_attempt_fails env n pre
      \<and> \<not> attempt_fails env (n + length pre) e"
proof (induction eps arbitrary: n)
  case Nil
  then show ?case by simp
next
  case (Cons ep eps)
  show ?case
  proof (cases "attempt_fails env n ep")
    case False
    then have "ep # eps = [] @ ep # eps \<and> every_attempt_fails env n []
      \<and> \<not> attempt_fails env (n + length ([]::ConnectivityEndpoint list)) ep"
      by simp
    then show ?thesis by blast
  next
    case True
    with Cons.prems have "\<not> every_attempt_fails env (Suc n) eps" by simp
    from Cons.IH [OF this] obtain pre e post where
      "eps = pre @ e # post" "every_attempt_fails env (Suc n) pre"
      "\<not> attempt_fails env (Suc n + length pre) e"
      by blast
    with True have "ep # eps = (ep # pre) @ e # post \<and> every_attempt_fails env n (ep # pre)
      \<and> \<not> attempt_fails env (n + length (ep # pre)) e"
      by simp
    then show ?thesis by blast
  qed
qed

subsection \<open>The loop of part_003\<close>

lemma try3_Cons:
  "tryEndpoints_3 env (ep # eps) t s =
     (let a = await_checkEndpoint env ep (s\<lparr>currentEndpoint := Some (name ep)\<rparr>)
      in case fst a of
           Inr resp \<Rightarrow> on_success ep t (snd a)
         | Inl err \<Rightarrow> tryEndpoints_3 env eps t (snd a))"
  by (simp add: split_beta Let_def split: sum.splits)

lemma try3_fail:
  "every_attempt_fails env (length (fetched s)) eps \<Longrightarrow>
   \<exists>d. snd (tryEndpoints_3 env eps t s) =
         s\<lparr>currentEndpoint := (if eps = [] then currentEndpoint s
                                else Some (name (last eps))),
           clock := clock s + d, fetched := fetched s @ map url eps\<rparr>
       \<and> \<not> isOnline_st (fst (tryEndpoints_3 env eps t s))"
proof (induction eps arbitrary: s)
  case Nil
  have "snd (tryEndpoints_3 env [] t s) =
         s\<lparr>currentEndpoint := (if [] = ([]::ConnectivityEndpoint list) then currentEndpoint s
                                else Some (name (last []))),
           clock := clock s + 0, fetched := fetched s @ map url []\<rparr>
       \<and> \<not> isOnline_st (fst (tryEndpoints_3 env [] t s))"
    by simp
  then show ?case by blast
next
  case (Cons ep eps)
  let ?c = "checkEndpoint ep (net env (length (fetched s)) (url ep))"
  let ?s2 = "s\<lparr>currentEndpoint := Some (name ep), clock := clock s + fst ?c,
                 fetched := fetched s @ [url ep]\<rparr>"
  from Cons.prems have f: "isl (snd ?c)" and r: "every_attempt_fails env (length (fetched ?s2)) eps"
    by (simp_all add: attempt_fails_def)
  from Cons.IH [OF r] obtain d where
    d: "snd (tryEndpoints_3 env eps t ?s2) =
         ?s2\<lparr>currentEndpoint := (if eps = [] then currentEndpoint ?s2
                                else Some (name (last eps))),
           clock := clock ?s2 + d, fetched := fetched ?s2 @ map url eps\<rparr>
       \<and> \<not> isOnline_st (fst (tryEndpoints_3 env eps t ?s2))"
    by blast
  from f obtain err where e: "snd ?c = Inl err" by (cases "snd ?c") simp_all
  have "snd (tryEndpoints_3 env (ep # eps) t s) =
         s\<lparr>currentEndpoint := (if ep # eps = [] then currentEndpoint s
                                else Some (name (last (ep # eps)))),
           clock := clock s + (fst ?c + d), fetched := fetched s @ map url (ep # eps)\<rparr>
       \<and> \<not> isOnline_st (fst (tryEndpoints_3 env (ep # eps) t s))"
    using d e by (simp add: try3_Cons await_eq Let_def add.assoc del: tryEndpoints_3.simps)
  then show ?case by blast
qed

lemma try3_success:
  "every_attempt_fails env (length (fetched s)) pre \<Longrightarrow>
   \<not> attempt_fails env (length (fetched s) + length pre) e \<Longrightarrow>
   \<exists>d. tryEndpoints_3 env (pre @ e # post) t s =
     on_success e t
        (s\<lparr>currentEndpoint := Some (name e), clock := clock s + d,
           fetched := fetched s @ map url pre @ [url e]\<rparr>)"
proof (induction pre arbitrary: s)
  case Nil
  let ?c = "checkEndpoint e (net env (length (fetched s)) (url e))"
  from Nil.prems obtain resp where e: "snd ?c = Inr resp"
    by (cases "snd ?c") (simp_all add: attempt_fails_def)
  have "tryEndpoints_3 env ([] @ e # post) t s =
     on_success e t
        (s\<lparr>currentEndpoint := Some (name e), clock := clock s + fst ?c,
           fetched := fetched s @ map url [] @ [url e]\<rparr>)"
    using e by (simp add: try3_Cons await_eq Let_def del: tryEndpoints_3.simps)
  then show ?case by blast
next
  case (Cons ep pre)
  let ?c = "checkEndpoint ep (net env (length (fetched s)) (url ep))"
  let ?s2 = "s\<lparr>currentEndpoint := Some (name ep), clock := clock s + fst ?c,
                 fetched := fetched s @ [url ep]\<rparr>"
  from Cons.prems have f: "isl (snd ?c)"
    and r: "every_attempt_fails env (length (fetched ?s2)) pre"
    and ok: "\<not> attempt_fails env (length (fetched ?s2) + length pre) e"
    by (simp_all add: attempt_fails_def)
  from Cons.IH [OF r ok] obtain d where
    d: "tryEndpoints_3 env (pre @ e # post) t ?s2 =
     on_success e t
        (?s2\<lparr>currentEndpoint := Some (name e), clock := clock ?s2 + d,
           fetched := fetched ?s2 @ map url pre @ [url e]\<rparr>)"
    by blast
  from f obtain err where e: "snd ?c = Inl err" by (cases "snd ?c") simp_all
  have "tryEndpoints_3 env ((ep # pre) @ e # post) t s =
     on_success e t
        (s\<lparr>currentEndpoint := Some (name e), clock := clock s + (fst ?c + d),
           fetched := fetched s @ map url (ep # pre) @ [url e]\<rparr>)"
    using d e by (simp add: try3_Cons await_eq Let_def add.assoc del: tryEndpoints_3.simps)
  then show ?case by blast
qed

lemma on_success_online [simp]: "isOnline_st (fst (on_success e t s))"
  by (simp add: on_success_def Let_def)

lemma try3_offline_iff:
  "\<not> isOnline_st (fst (tryEndpoints_3 env eps t s)) \<longleftrightarrow>
   every_attempt_fails env (length (fetched s)) eps"
proof (induction eps arbitrary: s)
  case Nil
  show ?case by simp
next
  case (Cons ep eps)
  show ?case
    using Cons.IH
    by (simp add: try3_Cons await_eq Let_def attempt_fails_def del: tryEndpoints_3.simps
        split: sum.splits)
qed

subsection \<open>A probe that fails\<close>

lemma failed_1:
  assumes "every_attempt_fails env (length (fetched s)) (endpoints s)"
  shows "failure_recorded s (checkConnectivity env s)"
proof -
  from assms have "every_attempt_fails env (length (fetched (begin_check s))) (endpoints s)"
    by (simp add: begin_check_def)
  from for_fail [OF this, of "performance_now s"] obtain d where
    "checkConnectivity_for env (performance_now s) (endpoints s) (begin_check s) =
     (None, begin_check s\<lparr>clock := clock (begin_check s) + d,
              fetched := fetched (begin_check s) @ map url (endpoints s),
              currentEndpoint := (if endpoints s = [] then currentEndpoint (begin_check s)
                                  else Some (name (last (endpoints s))))\<rparr>)"
    by blast
  then show ?thesis
    by (simp add: checkConnectivity_eq failure_recorded_def all_failed_def addToHistory_def
        begin_check_def new_Date_def Let_def)
qed

lemma checkConnectivity_3_eq:
  "checkConnectivity_3 env s =
     (let p = tryEndpoints_3 env (endpoints s) (performance_now s) (begin_check s)
      in if isOnline_st (fst p) then p
         else if shouldTryHttpFallback env
         then (let q = tryEndpoints_3 env (fallbackEndpoints (snd p)) (performance_now s) (snd p)
               in if isOnline_st (fst q) then q else all_failed (snd q))
         else all_failed (snd p))"
  by (simp add: checkConnectivity_3_def begin_check_def Let_def performance_now_def split_beta)

lemma failed_3:
  assumes a: "every_attempt_fails env (length (fetched s)) (endpoints s)"
    and b: "\<not> shouldTryHttpFallback env
         \<or> every_attempt_fails env (length (fetched s) + length (endpoints s)) (fallbackEndpoints s)"
  shows "failure_recorded s (checkConnectivity_3 env s)"
proof -
  let ?t = "performance_now s"
  let ?p = "tryEndpoints_3 env (endpoints s) ?t (begin_check s)"
  from a have "every_attempt_fails env (length (fetched (begin_check s))) (endpoints s)"
    by (simp add: begin_check_def)
  from try3_fail [OF this, of ?t] obtain d where
    p: "snd ?p = begin_check s\<lparr>currentEndpoint :=
              (if endpoints s = [] then currentEndpoint (begin_check s)
               else Some (name (last (endpoints s)))),
           clock := clock (begin_check s) + d,
           fetched := fetched (begin_check s) @ map url (endpoints s)\<rparr>"
    and pf: "\<not> isOnline_st (fst ?p)"
    by blast
  show ?thesis
  proof (cases "shouldTryHttpFallback env")
    case False
    with p pf show ?thesis
      by (simp add: checkConnectivity_3_eq failure_recorded_def all_failed_def addToHistory_def
          begin_check_def new_Date_def Let_def)
  next
    case True
    let ?q = "tryEndpoints_3 env (fallbackEndpoints s) ?t (snd ?p)"
    from True b p have "every_attempt_fails env (length (fetched (snd ?p))) (fallbackEndpoints s)"
      by (simp add: begin_check_def)
    from try3_fail [OF this, of ?t] obtain d' where
      q: "snd ?q = snd ?p\<lparr>currentEndpoint :=
              (if fallbackEndpoints s = [] then currentEndpoint (snd ?p)
               else Some (name (last (fallbackEndpoints s)))),
           clock := clock (snd ?p) + d',
           fetched := fetched (snd ?p) @ map url (fallbackEndpoints s)\<rparr>"
      and qf: "\<not> isOnline_st (fst ?q)"
      by blast
    have fb: "fallbackEndpoints (snd ?p) = fallbackEndpoints s"
      using p by (simp add: begin_check_def)
    have "checkConnectivity_3 env s = all_failed (snd ?q)"
      using True pf qf by (simp add: checkConnectivity_3_eq Let_def fb)
    then show ?thesis
      using q p
      by (simp add: failure_recorded_def all_failed_def addToHistory_def
          begin_check_def new_Date_def Let_def)
  qed
qed

subsection \<open>A probe that succeeds\<close>

lemma Math_round_nonneg: "0 \<le> x \<Longrightarrow> 0 \<le> Math_round x"
  by (simp add: Math_round_def)

lemma elapsed_nonneg:
  "0 \<le> Math_round (binary64 (binary64 (of_nat (c + d) / 1000) - binary64 (of_nat c / 1000)))"
proof -
  have "binary64 (of_nat c / 1000) \<le> binary64 (of_nat (c + d) / 1000)"
    by (rule binary64_mono) (simp_all add: divide_le_cancel)
  then have "0 \<le> binary64 (of_nat (c + d) / 1000) - binary64 (of_nat c / 1000)"
    by simp
  then show ?thesis
    by (intro Math_round_nonneg binary64_nonneg)
qed

lemma check_fail_eq:
  assumes "every_attempt_fails env (length (fetched s)) (endpoints s)"
  shows "\<exists>d. checkConnectivity env s =
     all_failed (begin_check s\<lparr>clock := clock s + d,
              fetched := fetched s @ map url (endpoints s),
              currentEndpoint := (if endpoints s = [] then currentEndpoint s
                                  else Some (name (last (endpoints s))))\<rparr>)"
proof -
  from assms have "every_attempt_fails env (length (fetched (begin_check s))) (endpoints s)"
    by (simp add: begin_check_def)
  from for_fail [OF this, of "performance_now s"] obtain d where
    "checkConnectivity_for env (performance_now s) (endpoints s) (begin_check s) =
     (None, begin_check s\<lparr>clock := clock (begin_check s) + d,
              fetched := fetched (begin_check s) @ map url (endpoints s),
              currentEndpoint := (if endpoints s = [] then currentEndpoint (begin_check s)
                                  else Some (name (last (endpoints s))))\<rparr>)"
    by blast
  then have "checkConnectivity env s =
     all_failed (begin_check s\<lparr>clock := clock s + d,
              fetched := fetched s @ map url (endpoints s),
              currentEndpoint := (if endpoints s = [] then currentEndpoint s
                                  else Some (name (last (endpoints s))))\<rparr>)"
    by (simp add: checkConnectivity_eq begin_check_def Let_def)
  then show ?thesis by blast
qed

lemma check_success_eq:
  assumes "endpoints s = pre @ e # post"
    and "every_attempt_fails env (length (fetched s)) pre"
    and "\<not> attempt_fails env (length (fetched s) + length pre) e"
  shows "\<exists>d. checkConnectivity env s =
     on_success e (performance_now s)
       (begin_check s\<lparr>currentEndpoint := Some (name e), clock := clock s + d,
           fetched := fetched s @ map url pre @ [url e]\<rparr>)"
proof -
  from assms have a: "every_attempt_fails env (length (fetched (begin_check s))) pre"
    and b: "\<not> attempt_fails env (length (fetched (begin_check s)) + length pre) e"
    by (simp_all add: begin_check_def)
  from for_success [OF a b, of "performance_now s" post] obtain d where
    "checkConnectivity_for env (performance_now s) (pre @ e # post) (begin_check s) =
     (Some (fst (on_success e (performance_now s)
        (begin_check s\<lparr>currentEndpoint := Some (name e), clock := clock (begin_check s) + d,
           fetched := fetched (begin_check s) @ map url pre @ [url e]\<rparr>))),
      snd (on_success e (performance_now s)
        (begin_check s\<lparr>currentEndpoint := Some (name e), clock := clock (begin_check s) + d,
           fetched := fetched (begin_check s) @ map url pre @ [url e]\<rparr>)))"
    by blast
  then have "checkConnectivity env s =
     on_success e (performance_now s)
       (begin_check s\<lparr>currentEndpoint := Some (name e), clock := clock s + d,
           fetched := fetched s @ map url pre @ [url e]\<rparr>)"
    using assms(1) by (simp add: checkConnectivity_eq begin_check_def Let_def)
  then show ?thesis by blast
qed

lemma succeeded_1:
  assumes "endpoints s = pre @ e # post"
    and "every_attempt_fails env (length (fetched s)) pre"
    and "\<not> attempt_fails env (length (fetched s) + length pre) e"
  shows "success_recorded s e (checkConnectivity env s)
       \<and> fetched (snd (checkConnectivity env s)) = fetched s @ map url pre @ [url e]"
proof -
  from check_success_eq [OF assms] obtain d where
    "checkConnectivity env s =
     on_success e (performance_now s)
       (begin_check s\<lparr>currentEndpoint := Some (name e), clock := clock s + d,
           fetched := fetched s @ map url pre @ [url e]\<rparr>)"
    by blast
  then show ?thesis
    using elapsed_nonneg [of "clock s" d]
    by (simp add: success_recorded_def on_success_def addToHistory_def
        updateResponseTimeTracking_def begin_check_def new_Date_def performance_now_def Let_def)
qed

lemma attempt_succeeds_iff:
  "\<not> attempt_fails env n ep \<longleftrightarrow>
   (\<exists>d resp. net env n (url ep) = Resolves d resp
       \<and> d < 1000 * (case timeout ep of None \<Rightarrow> 3000 | Some t \<Rightarrow> if t = 0 then 3000 else t)
       \<and> (rtype resp = Opaque \<or> status resp \<in> set (expectedStatus ep)))"
  by (cases "net env n (url ep)") (auto simp add: attempt_fails_def checkEndpoint_def Let_def)

subsection \<open>The counters\<close>

lemma counters_1:
  "totalChecks (snd (checkConnectivity env s)) = totalChecks s + 1
   \<and> successfulChecks (snd (checkConnectivity env s)) =
       (if isOnline_st (fst (checkConnectivity env s)) then successfulChecks s + 1
        else successfulChecks s)"
proof (cases "every_attempt_fails env (length (fetched s)) (endpoints s)")
  case True
  from failed_1 [OF this] show ?thesis
    by (simp add: failure_recorded_def split_beta)
next
  case False
  from first_success_split [OF this] obtain pre e post where
    "endpoints s = pre @ e # post" "every_attempt_fails env (length (fetched s)) pre"
    "\<not> attempt_fails env (length (fetched s) + length pre) e"
    by blast
  from succeeded_1 [OF this] show ?thesis
    by (auto simp add: success_recorded_def split_beta split: option.splits)
qed

lemma counters_fire:
  "totalChecks (fire env ev s) = totalChecks s + (if ev = Check then 1 else 0)"
  by (cases ev) (simp_all add: counters_1)

lemma total_run:
  "totalChecks (run env evs s) = totalChecks s + length (filter (\<lambda>ev. ev = Check) evs)"
  by (induction evs arbitrary: s) (simp_all add: counters_fire)

lemma successful_run:
  "successfulChecks (run env evs s) =
     successfulChecks s + length (filter isOnline_st (results env evs s))"
proof (induction evs arbitrary: s)
  case Nil
  show ?case by simp
next
  case (Cons ev evs)
  show ?case by (cases ev) (simp_all add: Cons.IH counters_1)
qed

lemma length_results: "length (results env evs s) = length (filter (\<lambda>ev. ev = Check) evs)"
proof (induction evs arbitrary: s)
  case Nil
  show ?case by simp
next
  case (Cons ev evs)
  show ?case by (cases ev) (simp_all add: Cons.IH)
qed

subsection \<open>The endpoint that stays\<close>

lemma last_slice_100: "last (slice (- 100) (xs @ [x])) = x"
  by (simp add: slice_def Let_def)

lemma check3_fail_eq:
  assumes a: "every_attempt_fails env (length (fetched s)) (endpoints s)"
    and b: "\<not> shouldTryHttpFallback env
         \<or> every_attempt_fails env (length (fetched s) + length (endpoints s)) (fallbackEndpoints s)"
  shows "\<exists>d. checkConnectivity_3 env s =
     all_failed (begin_check s\<lparr>currentEndpoint :=
              (if shouldTryHttpFallback env \<and> fallbackEndpoints s \<noteq> []
               then Some (name (last (fallbackEndpoints s)))
               else if endpoints s = [] then currentEndpoint s
               else Some (name (last (endpoints s)))),
           clock := clock s + d,
           fetched := fetched s @ map url (endpoints s)
              @ (if shouldTryHttpFallback env then map url (fallbackEndpoints s) else [])\<rparr>)"
proof -
  let ?t = "performance_now s"
  let ?p = "tryEndpoints_3 env (endpoints s) ?t (begin_check s)"
  from a have "every_attempt_fails env (length (fetched (begin_check s))) (endpoints s)"
    by (simp add: begin_check_def)
  from try3_fail [OF this, of ?t] obtain d where
    p: "snd ?p = begin_check s\<lparr>currentEndpoint :=
              (if endpoints s = [] then currentEndpoint (begin_check s)
               else Some (name (last (endpoints s)))),
           clock := clock (begin_check s) + d,
           fetched := fetched (begin_check s) @ map url (endpoints s)\<rparr>"
    and pf: "\<not> isOnline_st (fst ?p)"
    by blast
  show ?thesis
  proof (cases "shouldTryHttpFallback env")
    case False
    have "checkConnectivity_3 env s =
     all_failed (begin_check s\<lparr>currentEndpoint :=
              (if shouldTryHttpFallback env \<and> fallbackEndpoints s \<noteq> []
               then Some (name (last (fallbackEndpoints s)))
               else if endpoints s = [] then currentEndpoint s
               else Some (name (last (endpoints s)))),
           clock := clock s + d,
           fetched := fetched s @ map url (endpoints s)
              @ (if shouldTryHttpFallback env then map url (fallbackEndpoints s) else [])\<rparr>)"
      using False p pf by (simp add: checkConnectivity_3_eq begin_check_def Let_def)
    then show ?thesis by blast
  next
    case True
    let ?q = "tryEndpoints_3 env (fallbackEndpoints s) ?t (snd ?p)"
    from True b p have "every_attempt_fails env (length (fetched (snd ?p))) (fallbackEndpoints s)"
      by (simp add: begin_check_def)
    from try3_fail [OF this, of ?t] obtain d' where
      q: "snd ?q = snd ?p\<lparr>currentEndpoint :=
              (if fallbackEndpoints s = [] then currentEndpoint (snd ?p)
               else Some (name (last (fallbackEndpoints s)))),
           clock := clock (snd ?p) + d',
           fetched := fetched (snd ?p) @ map url (fallbackEndpoints s)\<rparr>"
      and qf: "\<not> isOnline_st (fst ?q)"
      by blast
    have fb: "fallbackEndpoints (snd ?p) = fallbackEndpoints s"
      using p by (simp add: begin_check_def)
    have "checkConnectivity_3 env s = all_failed (snd ?q)"
      using True pf qf by (simp add: checkConnectivity_3_eq Let_def fb)
    then have "checkConnectivity_3 env s =
     all_failed (begin_check s\<lparr>currentEndpoint :=
              (if shouldTryHttpFallback env \<and> fallbackEndpoints s \<noteq> []
               then Some (name (last (fallbackEndpoints s)))
               else if endpoints s = [] then currentEndpoint s
               else Some (name (last (endpoints s)))),
           clock := clock s + (d + d'),
           fetched := fetched s @ map url (endpoints s)
              @ (if shouldTryHttpFallback env then map url (fallbackEndpoints s) else [])\<rparr>)"
      using q p True by (simp add: begin_check_def add.assoc)
    then show ?thesis by blast
  qed
qed

lemma stale_endpoint_1:
  assumes "every_attempt_fails env (length (fetched s)) (endpoints s)"
  shows "currentEndpoint (snd (checkConnectivity env s)) =
           (if endpoints s = [] then currentEndpoint s else Some (name (last (endpoints s))))
       \<and> \<not> isOnline (snd (checkConnectivity env s))
       \<and> endpoint_st (fst (checkConnectivity env s)) = None
       \<and> endpoint_rec (last (connectionHistory (snd (checkConnectivity env s)))) = None
       \<and> \<not> isOnline_rec (last (connectionHistory (snd (checkConnectivity env s))))"
proof -
  from check_fail_eq [OF assms] obtain d where
    "checkConnectivity env s =
     all_failed (begin_check s\<lparr>clock := clock s + d,
              fetched := fetched s @ map url (endpoints s),
              currentEndpoint := (if endpoints s = [] then currentEndpoint s
                                  else Some (name (last (endpoints s))))\<rparr>)"
    by blast
  then show ?thesis
    by (simp add: all_failed_def addToHistory_def begin_check_def Let_def last_slice_100)
qed

lemma stale_endpoint_3:
  assumes "every_attempt_fails env (length (fetched s)) (endpoints s)"
    and "\<not> shouldTryHttpFallback env
         \<or> every_attempt_fails env (length (fetched s) + length (endpoints s)) (fallbackEndpoints s)"
  shows "currentEndpoint (snd (checkConnectivity_3 env s)) =
           (if shouldTryHttpFallback env \<and> fallbackEndpoints s \<noteq> []
            then Some (name (last (fallbackEndpoints s)))
            else if endpoints s = [] then currentEndpoint s
            else Some (name (last (endpoints s))))
       \<and> \<not> isOnline (snd (checkConnectivity_3 env s))
       \<and> endpoint_st (fst (checkConnectivity_3 env s)) = None
       \<and> endpoint_rec (last (connectionHistory (snd (checkConnectivity_3 env s)))) = None
       \<and> \<not> isOnline_rec (last (connectionHistory (snd (checkConnectivity_3 env s))))"
proof -
  from check3_fail_eq [OF assms] obtain d where
    "checkConnectivity_3 env s =
     all_failed (begin_check s\<lparr>currentEndpoint :=
              (if shouldTryHttpFallback env \<and> fallbackEndpoints s \<noteq> []
               then Some (name (last (fallbackEndpoints s)))
               else if endpoints s = [] then currentEndpoint s
               else Some (name (last (endpoints s)))),
           clock := clock s + d,
           fetched := fetched s @ map url (endpoints s)
              @ (if shouldTryHttpFallback env then map url (fallbackEndpoints s) else [])\<rparr>)"
    by blast
  then show ?thesis
    by (simp add: all_failed_def addToHistory_def begin_check_def Let_def last_slice_100)
qed

subsection \<open>The requests of a probe with a fallback list\<close>

lemma fetched_on_success [simp]: "fetched (snd (on_success e t s)) = fetched s"
  by (simp add: on_success_def addToHistory_def updateResponseTimeTracking_def Let_def)

lemma fetched_all_failed [simp]: "fetched (snd (all_failed s)) = fetched s"
  by (simp add: all_failed_def addToHistory_def Let_def)

lemma check3_primary_success_eq:
  assumes "endpoints s = pre @ e # post"
    and "every_attempt_fails env (length (fetched s)) pre"
    and "\<not> attempt_fails env (length (fetched s) + length pre) e"
  shows "\<exists>d. checkConnectivity_3 env s =
     on_success e (performance_now s)
       (begin_check s\<lparr>currentEndpoint := Some (name e), clock := clock s + d,
           fetched := fetched s @ map url pre @ [url e]\<rparr>)"
proof -
  from assms have a: "every_attempt_fails env (length (fetched (begin_check s))) pre"
    and b: "\<not> attempt_fails env (length (fetched (begin_check s)) + length pre) e"
    by (simp_all add: begin_check_def)
  from try3_success [OF a b, where t = "performance_now s" and post = post] obtain d where
    "tryEndpoints_3 env (pre @ e # post) (performance_now s) (begin_check s) =
     on_success e (performance_now s)
        (begin_check s\<lparr>currentEndpoint := Some (name e), clock := clock (begin_check s) + d,
           fetched := fetched (begin_check s) @ map url pre @ [url e]\<rparr>)"
    by blast
  then have "checkConnectivity_3 env s =
     on_success e (performance_now s)
       (begin_check s\<lparr>currentEndpoint := Some (name e), clock := clock s + d,
           fetched := fetched s @ map url pre @ [url e]\<rparr>)"
    using assms(1) by (simp add: checkConnectivity_3_eq begin_check_def Let_def)
  then show ?thesis by blast
qed

lemma check3_fallback_success_eq:
  assumes a: "every_attempt_fails env (length (fetched s)) (endpoints s)"
    and sh: "shouldTryHttpFallback env"
    and fb: "fallbackEndpoints s = pre @ e # post"
    and b: "every_attempt_fails env (length (fetched s) + length (endpoints s)) pre"
    and c: "\<not> attempt_fails env (length (fetched s) + length (endpoints s) + length pre) e"
  shows "\<exists>d. checkConnectivity_3 env s =
     on_success e (performance_now s)
       (begin_check s\<lparr>currentEndpoint := Some (name e), clock := clock s + d,
           fetched := fetched s @ map url (endpoints s) @ map url pre @ [url e]\<rparr>)"
proof -
  let ?t = "performance_now s"
  let ?p = "tryEndpoints_3 env (endpoints s) ?t (begin_check s)"
  from a have "every_attempt_fails env (length (fetched (begin_check s))) (endpoints s)"
    by (simp add: begin_check_def)
  from try3_fail [OF this, of ?t] obtain d where
    p: "snd ?p = begin_check s\<lparr>currentEndpoint :=
              (if endpoints s = [] then currentEndpoint (begin_check s)
               else Some (name (last (endpoints s)))),
           clock := clock (begin_check s) + d,
           fetched := fetched (begin_check s) @ map url (endpoints s)\<rparr>"
    and pf: "\<not> isOnline_st (fst ?p)"
    by blast
  have fbp: "fallbackEndpoints (snd ?p) = pre @ e # post"
    using p fb by (simp add: begin_check_def)
  from b p have b': "every_attempt_fails env (length (fetched (snd ?p))) pre"
    by (simp add: begin_check_def)
  from c p have c': "\<not> attempt_fails env (length (fetched (snd ?p)) + length pre) e"
    by (simp add: begin_check_def)
  from try3_success [OF b' c', where t = ?t and post = post] obtain d' where
    q: "tryEndpoints_3 env (pre @ e # post) ?t (snd ?p) =
     on_success e ?t
        (snd ?p\<lparr>currentEndpoint := Some (name e), clock := clock (snd ?p) + d',
           fetched := fetched (snd ?p) @ map url pre @ [url e]\<rparr>)"
    by blast
  have "checkConnectivity_3 env s =
     on_success e ?t
        (snd ?p\<lparr>currentEndpoint := Some (name e), clock := clock (snd ?p) + d',
           fetched := fetched (snd ?p) @ map url pre @ [url e]\<rparr>)"
    using sh pf q by (simp add: checkConnectivity_3_eq Let_def fbp)
  then have "checkConnectivity_3 env s =
     on_success e (performance_now s)
       (begin_check s\<lparr>currentEndpoint := Some (name e), clock := clock s + (d + d'),
           fetched := fetched s @ map url (endpoints s) @ map url pre @ [url e]\<rparr>)"
    using p by (simp add: begin_check_def add.assoc)
  then show ?thesis by blast
qed

lemma fetched_3:
  "\<exists>k j. k \<le> length (endpoints s) \<and> j \<le> length (fallbackEndpoints s)
     \<and> fetched (snd (checkConnectivity_3 env s)) =
         fetched s @ map url (take k (endpoints s)) @ map url (take j (fallbackEndpoints s))
     \<and> (0 < j \<longleftrightarrow> every_attempt_fails env (length (fetched s)) (endpoints s)
                  \<and> shouldTryHttpFallback env \<and> fallbackEndpoints s \<noteq> [])
     \<and> (0 < j \<longrightarrow> k = length (endpoints s))"
proof (cases "every_attempt_fails env (length (fetched s)) (endpoints s)")
  case False
  from first_success_split [OF this] obtain pre e post where
    s: "endpoints s = pre @ e # post" "every_attempt_fails env (length (fetched s)) pre"
    "\<not> attempt_fails env (length (fetched s) + length pre) e"
    by blast
  from check3_primary_success_eq [OF this] obtain d where
    "checkConnectivity_3 env s =
     on_success e (performance_now s)
       (begin_check s\<lparr>currentEndpoint := Some (name e), clock := clock s + d,
           fetched := fetched s @ map url pre @ [url e]\<rparr>)"
    by blast
  then have "Suc (length pre) \<le> length (endpoints s) \<and> 0 \<le> length (fallbackEndpoints s)
     \<and> fetched (snd (checkConnectivity_3 env s)) =
         fetched s @ map url (take (Suc (length pre)) (endpoints s))
           @ map url (take 0 (fallbackEndpoints s))
     \<and> (0 < (0::nat) \<longleftrightarrow> every_attempt_fails env (length (fetched s)) (endpoints s)
                  \<and> shouldTryHttpFallback env \<and> fallbackEndpoints s \<noteq> [])
     \<and> (0 < (0::nat) \<longrightarrow> Suc (length pre) = length (endpoints s))"
    using False s(1) by simp
  then show ?thesis by blast
next
  case True
  note A = this
  show ?thesis
  proof (cases "shouldTryHttpFallback env")
    case False
    with A check3_fail_eq [of env s] obtain d where
      "checkConnectivity_3 env s =
     all_failed (begin_check s\<lparr>currentEndpoint :=
              (if shouldTryHttpFallback env \<and> fallbackEndpoints s \<noteq> []
               then Some (name (last (fallbackEndpoints s)))
               else if endpoints s = [] then currentEndpoint s
               else Some (name (last (endpoints s)))),
           clock := clock s + d,
           fetched := fetched s @ map url (endpoints s)
              @ (if shouldTryHttpFallback env then map url (fallbackEndpoints s) else [])\<rparr>)"
      by blast
    then have "length (endpoints s) \<le> length (endpoints s) \<and> 0 \<le> length (fallbackEndpoints s)
     \<and> fetched (snd (checkConnectivity_3 env s)) =
         fetched s @ map url (take (length (endpoints s)) (endpoints s))
           @ map url (take 0 (fallbackEndpoints s))
     \<and> (0 < (0::nat) \<longleftrightarrow> every_attempt_fails env (length (fetched s)) (endpoints s)
                  \<and> shouldTryHttpFallback env \<and> fallbackEndpoints s \<noteq> [])
     \<and> (0 < (0::nat) \<longrightarrow> length (endpoints s) = length (endpoints s))"
      using False by simp
    then show ?thesis by blast
  next
    case True
    note SH = this
    let ?n = "length (fetched s) + length (endpoints s)"
    show ?thesis
    proof (cases "every_attempt_fails env ?n (fallbackEndpoints s)")
      case True
      with A check3_fail_eq [of env s] obtain d where
        "checkConnectivity_3 env s =
     all_failed (begin_check s\<lparr>currentEndpoint :=
              (if shouldTryHttpFallback env \<and> fallbackEndpoints s \<noteq> []
               then Some (name (last (fallbackEndpoints s)))
               else if endpoints s = [] then currentEndpoint s
               else Some (name (last (endpoints s)))),
           clock := clock s + d,
           fetched := fetched s @ map url (endpoints s)
              @ (if shouldTryHttpFallback env then map url (fallbackEndpoints s) else [])\<rparr>)"
        by blast
      then have "length (endpoints s) \<le> length (endpoints s)
     \<and> length (fallbackEndpoints s) \<le> length (fallbackEndpoints s)
     \<and> fetched (snd (checkConnectivity_3 env s)) =
         fetched s @ map url (take (length (endpoints s)) (endpoints s))
           @ map url (take (length (fallbackEndpoints s)) (fallbackEndpoints s))
     \<and> (0 < length (fallbackEndpoints s) \<longleftrightarrow>
           every_attempt_fails env (length (fetched s)) (endpoints s)
           \<and> shouldTryHttpFallback env \<and> fallbackEndpoints s \<noteq> [])
     \<and> (0 < length (fallbackEndpoints s) \<longrightarrow> length (endpoints s) = length (endpoints s))"
        using SH A by simp
      then show ?thesis by blast
    next
      case False
      from first_success_split [OF this] obtain pre e post where
        f: "fallbackEndpoints s = pre @ e # post" "every_attempt_fails env ?n pre"
        "\<not> attempt_fails env (?n + length pre) e"
        by blast
      from check3_fallback_success_eq [OF A SH this] obtain d where
        "checkConnectivity_3 env s =
     on_success e (performance_now s)
       (begin_check s\<lparr>currentEndpoint := Some (name e), clock := clock s + d,
           fetched := fetched s @ map url (endpoints s) @ map url pre @ [url e]\<rparr>)"
        by blast
      then have "length (endpoints s) \<le> length (endpoints s)
     \<and> Suc (length pre) \<le> length (fallbackEndpoints s)
     \<and> fetched (snd (checkConnectivity_3 env s)) =
         fetched s @ map url (take (length (endpoints s)) (endpoints s))
           @ map url (take (Suc (length pre)) (fallbackEndpoints s))
     \<and> (0 < Suc (length pre) \<longleftrightarrow>
           every_attempt_fails env (length (fetched s)) (endpoints s)
           \<and> shouldTryHttpFallback env \<and> fallbackEndpoints s \<noteq> [])
     \<and> (0 < Suc (length pre) \<longrightarrow> length (endpoints s) = length (endpoints s))"
        using SH A f(1) by simp
      then show ?thesis by blast
    qed
  qed
qed

subsection \<open>The extrema\<close>

lemma tracking_update:
  "minResponseTime (updateResponseTimeTracking rt s) = lower rt (minResponseTime s)
   \<and> maxResponseTime (updateResponseTimeTracking rt s) = higher rt (maxResponseTime s)"
  by (simp add: updateResponseTimeTracking_def lower_def higher_def Let_def min_def max_def
      split: option.splits)

lemma tracking_1:
  "minResponseTime (snd (checkConnectivity env s)) =
     (case (if isOnline_st (fst (checkConnectivity env s))
            then responseTime_st (fst (checkConnectivity env s)) else None) of
        None \<Rightarrow> minResponseTime s
      | Some rt \<Rightarrow> lower rt (minResponseTime s))
   \<and> maxResponseTime (snd (checkConnectivity env s)) =
     (case (if isOnline_st (fst (checkConnectivity env s))
            then responseTime_st (fst (checkConnectivity env s)) else None) of
        None \<Rightarrow> maxResponseTime s
      | Some rt \<Rightarrow> higher rt (maxResponseTime s))"
proof (cases "every_attempt_fails env (length (fetched s)) (endpoints s)")
  case True
  from check_fail_eq [OF this] obtain d where
    "checkConnectivity env s =
     all_failed (begin_check s\<lparr>clock := clock s + d,
              fetched := fetched s @ map url (endpoints s),
              currentEndpoint := (if endpoints s = [] then currentEndpoint s
                                  else Some (name (last (endpoints s))))\<rparr>)"
    by blast
  then show ?thesis
    by (simp add: all_failed_def addToHistory_def begin_check_def Let_def)
next
  case False
  from first_success_split [OF this] obtain pre e post where
    "endpoints s = pre @ e # post" "every_attempt_fails env (length (fetched s)) pre"
    "\<not> attempt_fails env (length (fetched s) + length pre) e"
    by blast
  from check_success_eq [OF this] obtain d where
    "checkConnectivity env s =
     on_success e (performance_now s)
       (begin_check s\<lparr>currentEndpoint := Some (name e), clock := clock s + d,
           fetched := fetched s @ map url pre @ [url e]\<rparr>)"
    by blast
  then show ?thesis
    using tracking_update
    by (simp add: on_success_def addToHistory_def begin_check_def Let_def)
qed

lemma tracking_run:
  "minResponseTime (run env evs s) = fold lower (successful_times env evs s) (minResponseTime s)
   \<and> maxResponseTime (run env evs s) = fold higher (successful_times env evs s) (maxResponseTime s)"
proof (induction evs arbitrary: s)
  case Nil
  show ?case by (simp add: successful_times_def map_filter_simps)
next
  case (Cons ev evs)
  show ?case
  proof (cases ev)
    case Check
    have st: "successful_times env (Check # evs) s =
      (case (if isOnline_st (fst (checkConnectivity env s))
            then responseTime_st (fst (checkConnectivity env s)) else None) of
         None \<Rightarrow> successful_times env evs (fire env Check s)
       | Some rt \<Rightarrow> rt # successful_times env evs (fire env Check s))"
      by (simp add: successful_times_def map_filter_simps split: option.splits)
    show ?thesis
      using Cons.IH [of "fire env Check s"] tracking_1 [of env s]
      by (simp add: Check st split: option.splits)
  next
    case Online
    then show ?thesis using Cons.IH [of "fire env Online s"]
      by (simp add: successful_times_def)
  next
    case Offline
    then show ?thesis using Cons.IH [of "fire env Offline s"]
      by (simp add: successful_times_def)
  next
    case (Wait d)
    then show ?thesis using Cons.IH [of "fire env (Wait d) s"]
      by (simp add: successful_times_def)
  qed
qed

lemma fold_lower_Some: "fold lower rts (Some m) = Some (Min (insert m (set rts)))"
proof (induction rts arbitrary: m)
  case Nil
  show ?case by simp
next
  case (Cons rt rts)
  have e: "Min (insert (min rt m) (set rts)) = Min (insert m (insert rt (set rts)))"
    by (cases "rts = []") (simp_all add: min.commute min.left_commute)
  have l: "lower rt (Some m) = Some (min rt m)"
    by (simp add: lower_def)
  have "fold lower (rt # rts) (Some m) = fold lower rts (Some (min rt m))"
    by (simp only: fold_simps l)
  also have "\<dots> = Some (Min (insert (min rt m) (set rts)))"
    by (rule Cons.IH)
  finally show ?case
    by (simp only: e list.set)
qed

lemma fold_higher_Some: "fold higher rts (Some m) = Some (Max (insert m (set rts)))"
proof (induction rts arbitrary: m)
  case Nil
  show ?case by simp
next
  case (Cons rt rts)
  have e: "Max (insert (max rt m) (set rts)) = Max (insert m (insert rt (set rts)))"
    by (cases "rts = []") (simp_all add: max.commute max.left_commute)
  have l: "higher rt (Some m) = Some (max rt m)"
    by (simp add: higher_def)
  have "fold higher (rt # rts) (Some m) = fold higher rts (Some (max rt m))"
    by (simp only: fold_simps l)
  also have "\<dots> = Some (Max (insert (max rt m) (set rts)))"
    by (rule Cons.IH)
  finally show ?case
    by (simp only: e list.set)
qed

lemma fold_lower_None: "fold lower rts None = (if rts = [] then None else Some (Min (set rts)))"
  by (cases rts) (simp_all add: fold_lower_Some lower_def)

lemma fold_higher_None: "fold higher rts None = (if rts = [] then None else Some (Max (set rts)))"
  by (cases rts) (simp_all add: fold_higher_Some higher_def)

subsection \<open>Response times and the network\<close>

lemma online_iff_answered:
  "isOnline_st (fst (checkConnectivity env s)) \<longleftrightarrow>
   \<not> every_attempt_fails env (length (fetched s)) (endpoints s)"
proof (cases "every_attempt_fails env (length (fetched s)) (endpoints s)")
  case True
  from failed_1 [OF this] show ?thesis
    using True by (simp add: failure_recorded_def split_beta)
next
  case False
  from first_success_split [OF this] obtain pre e post where
    "endpoints s = pre @ e # post" "every_attempt_fails env (length (fetched s)) pre"
    "\<not> attempt_fails env (length (fetched s) + length pre) e"
    by blast
  from succeeded_1 [OF this] show ?thesis
    using False by (auto simp add: success_recorded_def split_beta split: option.splits)
qed

lemma extrema_unchanged:
  assumes "every_attempt_fails env (length (fetched s)) (endpoints s)"
  shows "minResponseTime (snd (checkConnectivity env s)) = minResponseTime s
       \<and> maxResponseTime (snd (checkConnectivity env s)) = maxResponseTime s"
  using tracking_1 [of env s] online_iff_answered [of env s] assms by simp

lemma extrema_updated:
  assumes "\<not> every_attempt_fails env (length (fetched s)) (endpoints s)"
  shows "isOnline_st (fst (checkConnectivity env s))
       \<and> responseTime_st (fst (checkConnectivity env s)) =
           Some (Math_round (binary64
             (performance_now (snd (checkConnectivity env s)) - performance_now s)))
       \<and> minResponseTime (snd (checkConnectivity env s)) =
           lower (Math_round (binary64
             (performance_now (snd (checkConnectivity env s)) - performance_now s)))
             (minResponseTime s)
       \<and> maxResponseTime (snd (checkConnectivity env s)) =
           higher (Math_round (binary64
             (performance_now (snd (checkConnectivity env s)) - performance_now s)))
             (maxResponseTime s)"
proof -
  from first_success_split [OF assms] obtain pre e post where
    "endpoints s = pre @ e # post" "every_attempt_fails env (length (fetched s)) pre"
    "\<not> attempt_fails env (length (fetched s) + length pre) e"
    by blast
  from check_success_eq [OF this] obtain d where
    e: "checkConnectivity env s =
     on_success e (performance_now s)
       (begin_check s\<lparr>currentEndpoint := Some (name e), clock := clock s + d,
           fetched := fetched s @ map url pre @ [url e]\<rparr>)"
    by blast
  show ?thesis
    using tracking_update
    by (simp add: e on_success_def addToHistory_def begin_check_def Let_def performance_now_def
        updateResponseTimeTracking_def lower_def higher_def min_def max_def split: option.splits)
qed

lemma clock_on_success: "clock (snd (on_success ep t s)) = clock s"
  by (simp add: on_success_def addToHistory_def updateResponseTimeTracking_def Let_def)

lemma clock_all_failed: "clock (snd (all_failed s)) = clock s"
  by (simp add: all_failed_def addToHistory_def Let_def)

lemma clock_for:
  "clock (snd (checkConnectivity_for env t eps s)) =
   clock s + probe_duration env (length (fetched s)) eps"
proof (induction eps arbitrary: s)
  case Nil
  show ?case by simp
next
  case (Cons ep eps)
  show ?case
    using Cons.IH
    by (simp add: for_Cons await_eq Let_def attempt_fails_def clock_on_success
        del: checkConnectivity_for.simps split: sum.splits)
qed

lemma clock_check:
  "clock (snd (checkConnectivity env s)) =
   clock s + probe_duration env (length (fetched s)) (endpoints s)"
  using clock_for [of env "performance_now s" "endpoints s" "begin_check s"]
  by (simp add: checkConnectivity_eq Let_def clock_all_failed begin_check_def
      split: option.splits)

lemma check_measures:
  "responseTime_st (fst (checkConnectivity env s)) =
     (if every_attempt_fails env (length (fetched s)) (endpoints s) then None
      else Some (measured env s))
   \<and> minResponseTime (snd (checkConnectivity env s)) =
     (if every_attempt_fails env (length (fetched s)) (endpoints s) then minResponseTime s
      else lower (measured env s) (minResponseTime s))
   \<and> maxResponseTime (snd (checkConnectivity env s)) =
     (if every_attempt_fails env (length (fetched s)) (endpoints s) then maxResponseTime s
      else higher (measured env s) (maxResponseTime s))"
proof (cases "every_attempt_fails env (length (fetched s)) (endpoints s)")
  case True
  from failed_1 [OF True] extrema_unchanged [OF True] True show ?thesis
    by (simp add: failure_recorded_def split_beta)
next
  case False
  have "performance_now (snd (checkConnectivity env s)) =
    binary64 (of_nat (clock s + probe_duration env (length (fetched s)) (endpoints s)) / 1000)"
    by (simp only: performance_now_def clock_check)
  with extrema_updated [OF False] False show ?thesis
    by (simp add: measured_def performance_now_def)
qed

subsection \<open>The extrema do not read the history\<close>

lemma history_first:
  "s\<lparr>connectionHistory := h, currentEndpoint := a, clock := c, fetched := f\<rparr> =
   s\<lparr>currentEndpoint := a, clock := c, fetched := f, connectionHistory := h\<rparr>"
  by (cases s) simp

lemma on_success_ignores_history:
  "on_success ep t (s\<lparr>connectionHistory := h\<rparr>) =
     (fst (on_success ep t s),
      (snd (on_success ep t s))\<lparr>connectionHistory :=
         connectionHistory (snd (on_success ep t (s\<lparr>connectionHistory := h\<rparr>)))\<rparr>)"
  by (cases s)
    (simp add: on_success_def addToHistory_def updateResponseTimeTracking_def Let_def
      performance_now_def new_Date_def)

lemma all_failed_ignores_history:
  "all_failed (s\<lparr>connectionHistory := h\<rparr>) =
     (fst (all_failed s),
      (snd (all_failed s))\<lparr>connectionHistory :=
         connectionHistory (snd (all_failed (s\<lparr>connectionHistory := h\<rparr>)))\<rparr>)"
  by (cases s) (simp add: all_failed_def addToHistory_def Let_def new_Date_def)

lemma for_ignores_history:
  "\<exists>h'. checkConnectivity_for env t eps (s\<lparr>connectionHistory := h\<rparr>) =
     (fst (checkConnectivity_for env t eps s),
      (snd (checkConnectivity_for env t eps s))\<lparr>connectionHistory := h'\<rparr>)"
proof (induction eps arbitrary: s)
  case Nil
  show ?case by (intro exI [of _ h]) simp
next
  case (Cons ep eps)
  let ?s2 = "s\<lparr>currentEndpoint := Some (name ep),
      clock := clock s + fst (checkEndpoint ep (net env (length (fetched s)) (url ep))),
      fetched := fetched s @ [url ep]\<rparr>"
  show ?case
  proof (cases "snd (checkEndpoint ep (net env (length (fetched s)) (url ep)))")
    case (Inl err)
    from Cons.IH [of ?s2] show ?thesis
      by (simp add: for_Cons await_eq Let_def Inl history_first del: checkConnectivity_for.simps)
  next
    case (Inr resp)
    from on_success_ignores_history [where ep = ep and t = t and s = ?s2 and h = h] show ?thesis
      by (simp add: for_Cons await_eq Let_def Inr history_first del: checkConnectivity_for.simps)
        (metis fst_conv snd_conv)
  qed
qed

lemma begin_check_history:
  "begin_check (s\<lparr>connectionHistory := h\<rparr>) = (begin_check s)\<lparr>connectionHistory := h\<rparr>"
  by (cases s) (simp add: begin_check_def)

lemma check_ignores_history:
  "\<exists>h'. checkConnectivity env (s\<lparr>connectionHistory := h\<rparr>) =
     (fst (checkConnectivity env s), (snd (checkConnectivity env s))\<lparr>connectionHistory := h'\<rparr>)"
proof -
  let ?r = "checkConnectivity_for env (performance_now s) (endpoints s) (begin_check s)"
  from for_ignores_history [where env = env and t = "performance_now s" and eps = "endpoints s" and s = "begin_check s" and h = h]
  obtain h' where
    e: "checkConnectivity_for env (performance_now s) (endpoints s)
          ((begin_check s)\<lparr>connectionHistory := h\<rparr>) =
        (fst ?r, (snd ?r)\<lparr>connectionHistory := h'\<rparr>)"
    by blast
  have p: "performance_now (s\<lparr>connectionHistory := h\<rparr>) = performance_now s"
    by (simp add: performance_now_def)
  show ?thesis
  proof (cases "fst ?r")
    case (Some result)
    then show ?thesis
      by (intro exI [of _ h']) (simp add: checkConnectivity_eq begin_check_history p e Let_def)
  next
    case None
    with all_failed_ignores_history [where s = "snd ?r" and h = h'] show ?thesis
      by (simp add: checkConnectivity_eq begin_check_history p e Let_def) (metis fst_conv snd_conv)
  qed
qed

lemma fire_ignores_history:
  "\<exists>h'. fire env ev (s\<lparr>connectionHistory := h\<rparr>) = (fire env ev s)\<lparr>connectionHistory := h'\<rparr>"
proof (cases ev)
  case Check
  from check_ignores_history [where env = env and s = s and h = h] show ?thesis
    by (auto simp add: Check)
next
  case Online
  show ?thesis by (intro exI [of _ h]) (cases s, simp add: Online)
next
  case Offline
  show ?thesis by (intro exI [of _ h]) (cases s, simp add: Offline)
next
  case (Wait d)
  show ?thesis by (intro exI [of _ h]) (cases s, simp add: Wait)
qed

lemma run_ignores_history:
  "\<exists>h'. run env evs (s\<lparr>connectionHistory := h\<rparr>) = (run env evs s)\<lparr>connectionHistory := h'\<rparr>"
proof (induction evs arbitrary: s h)
  case Nil
  show ?case by (intro exI [of _ h]) simp
next
  case (Cons ev evs)
  from fire_ignores_history [where env = env and ev = ev and s = s and h = h] obtain h1 where
    "fire env ev (s\<lparr>connectionHistory := h\<rparr>) = (fire env ev s)\<lparr>connectionHistory := h1\<rparr>"
    by blast
  with Cons.IH [where s = "fire env ev s" and h = h1] show ?case by simp
qed

lemma extrema_ignore_history:
  "minResponseTime (run env evs (s\<lparr>connectionHistory := h\<rparr>)) = minResponseTime (run env evs s)
   \<and> maxResponseTime (run env evs (s\<lparr>connectionHistory := h\<rparr>)) = maxResponseTime (run env evs s)"
proof -
  from run_ignores_history [where env = env and evs = evs and s = s and h = h] obtain h' where
    "run env evs (s\<lparr>connectionHistory := h\<rparr>) = (run env evs s)\<lparr>connectionHistory := h'\<rparr>"
    by blast
  then show ?thesis by simp
qed

subsection \<open>Evaluation\<close>

lemma round_fifth: "Math_round (binary64 (binary64 (1 / 5))) = 0"
  by code_simp

lemma round_second: "Math_round (binary64 (binary64 (501 / 5) - binary64 (1 / 5))) = 100"
  by code_simp

lemma round_hundred: "Math_round (binary64 100) = 100"
  by code_simp

lemma round_fifty: "Math_round (binary64 50) = 50"
  by code_simp

lemmas unfold_probe =
  checkConnectivity_def begin_check_def await_checkEndpoint_def checkEndpoint_def
  on_success_def all_failed_def addToHistory_def updateResponseTimeTracking_def slice_def
  performance_now_def new_Date_def Let_def

lemma exact_readings:
  "binary64 20 = 20" "binary64 30 = 30" "binary64 40 = 40" "binary64 50 = 50"
  "binary64 200 = 200" "binary64 250 = 250" "binary64 280 = 280" "binary64 2 = 2"
  "Math_round 20 = 20" "Math_round 30 = 30" "Math_round 50 = 50" "Math_round 200 = 200"
  by code_simp+

lemma round_elapsed: "Math_round (binary64 (binary64 3042)) = 3042"
  by code_simp

text \<open>
  The first endpoint times out after 3000 ms and the second answers after 42 more: the
  response time is measured from the start of the probe.
\<close>

lemma second_endpoint_answers:
  "isOnline (snd (checkConnectivity env_second_answers
      (new_ConnectivityService env_second_answers endpoints_http [])))
   \<and> currentEndpoint (snd (checkConnectivity env_second_answers
      (new_ConnectivityService env_second_answers endpoints_http []))) = Some ''Cloudflare''
   \<and> responseTime (snd (checkConnectivity env_second_answers
      (new_ConnectivityService env_second_answers endpoints_http []))) = Some 3042
   \<and> map isOnline_rec (connectionHistory (snd (checkConnectivity env_second_answers
      (new_ConnectivityService env_second_answers endpoints_http [])))) = [True]"
  by (simp add: env_second_answers_def new_ConnectivityService_def endpoints_http_def
      unfold_probe round_elapsed)

subsection \<open>The guarded probe of part_002\<close>

lemma try2_Cons:
  "tryEndpoints_2 env (ep # eps) t s =
     (let a = await_checkEndpoint env ep (s\<lparr>currentEndpoint := Some (name ep)\<rparr>)
      in case fst a of
           Inr resp \<Rightarrow> on_success_2 ep t (snd a)
         | Inl err \<Rightarrow> tryEndpoints_2 env eps t (snd a))"
  by (simp add: split_beta Let_def split: sum.splits)

lemma try2_counters:
  "totalChecks (snd (tryEndpoints_2 env eps t s)) = totalChecks s
   \<and> successfulChecks (snd (tryEndpoints_2 env eps t s)) =
       (if isOnline_st (fst (tryEndpoints_2 env eps t s)) then successfulChecks s + 1
        else successfulChecks s)
   \<and> isChecking (snd (tryEndpoints_2 env eps t s)) = isChecking s"
proof (induction eps arbitrary: s)
  case Nil
  show ?case by simp
next
  case (Cons ep eps)
  show ?case
    using Cons.IH [of "snd (await_checkEndpoint env ep (s\<lparr>currentEndpoint := Some (name ep)\<rparr>))"]
    by (simp add: try2_Cons await_eq Let_def on_success_2_def addToHistory_def
        updateResponseTimeTracking_def del: tryEndpoints_2.simps split: sum.splits)
qed

lemma guard_2:
  "isChecking s \<Longrightarrow>
   checkConnectivity_2 env s =
     (\<lparr>isOnline_st = isOnline s, lastChecked_st = lastChecked s,
       responseTime_st = responseTime s, endpoint_st = currentEndpoint s,
       error_st = error s\<rparr>, s)"
  by (simp add: checkConnectivity_2_def)

lemma counters_2:
  assumes "\<not> isChecking s"
  shows "totalChecks (snd (checkConnectivity_2 env s)) = totalChecks s + 1
   \<and> successfulChecks (snd (checkConnectivity_2 env s)) =
       (if isOnline_st (fst (checkConnectivity_2 env s)) then successfulChecks s + 1
        else successfulChecks s)
   \<and> \<not> isChecking (snd (checkConnectivity_2 env s))"
proof -
  let ?s1 = "s\<lparr>isChecking := True, error := None\<rparr>"
  let ?t = "performance_now ?s1"
  let ?p = "tryEndpoints_2 env (endpoints ?s1) ?t ?s1"
  let ?q = "tryEndpoints_2 env (fallbackEndpoints (snd ?p)) ?t (snd ?p)"
  show ?thesis
    using assms try2_counters [of env "endpoints ?s1" ?t ?s1]
      try2_counters [of env "fallbackEndpoints (snd ?p)" ?t "snd ?p"]
    by (simp add: checkConnectivity_2_def Let_def split_beta all_failed_2_def addToHistory_def)
qed

lemma try2_answered:
  "isOnline_st (fst (tryEndpoints_2 env eps t s)) \<longleftrightarrow>
   \<not> every_attempt_fails env (length (fetched s)) eps"
proof (induction eps arbitrary: s)
  case Nil
  show ?case by simp
next
  case (Cons ep eps)
  show ?case
    using Cons.IH
    by (simp add: try2_Cons await_eq Let_def attempt_fails_def on_success_2_def
        del: tryEndpoints_2.simps split: sum.splits)
qed

lemma check2_resumes:
  "checkConnectivity_2 env s =
     (if isChecking s
      then (\<lparr>isOnline_st = isOnline s, lastChecked_st = lastChecked s,
             responseTime_st = responseTime s, endpoint_st = currentEndpoint s,
             error_st = error s\<rparr>, s)
      else if isOnline_st (fst (tryEndpoints_returned_2 env s))
      then (fst (tryEndpoints_returned_2 env s),
            (snd (tryEndpoints_returned_2 env s))
              \<lparr>totalChecks := totalChecks (snd (tryEndpoints_returned_2 env s)) + 1,
               isChecking := False\<rparr>)
      else if shouldTryHttpFallback env
      then (let p = tryEndpoints_2 env (fallbackEndpoints (snd (tryEndpoints_returned_2 env s)))
                      (performance_now s) (snd (tryEndpoints_returned_2 env s))
            in if isOnline_st (fst p)
               then (fst p, (snd p)\<lparr>totalChecks := totalChecks (snd p) + 1, isChecking := False\<rparr>)
               else all_failed_2 (snd p))
      else all_failed_2 (snd (tryEndpoints_returned_2 env s)))"
  by (simp add: checkConnectivity_2_def tryEndpoints_returned_2_def Let_def split_beta
      performance_now_def)

lemma returned_2_counters:
  assumes "\<not> every_attempt_fails env (length (fetched s)) (endpoints s)"
  shows "isOnline_st (fst (tryEndpoints_returned_2 env s))
       \<and> successfulChecks (snd (tryEndpoints_returned_2 env s)) = successfulChecks s + 1
       \<and> totalChecks (snd (tryEndpoints_returned_2 env s)) = totalChecks s
       \<and> isChecking (snd (tryEndpoints_returned_2 env s))"
  using assms
    try2_answered [of env "endpoints s" "performance_now (s\<lparr>isChecking := True, error := None\<rparr>)"
      "s\<lparr>isChecking := True, error := None\<rparr>"]
    try2_counters [of env "endpoints s" "performance_now (s\<lparr>isChecking := True, error := None\<rparr>)"
      "s\<lparr>isChecking := True, error := None\<rparr>"]
  by (simp add: tryEndpoints_returned_2_def Let_def)

lemma answered_2:
  assumes "\<not> isChecking s"
    and "\<not> every_attempt_fails env (length (fetched s)) (endpoints s)"
  shows "isOnline_st (fst (checkConnectivity_2 env s))
       \<and> successfulChecks (snd (checkConnectivity_2 env s)) = successfulChecks s + 1
       \<and> totalChecks (snd (checkConnectivity_2 env s)) = totalChecks s + 1"
  using assms(1) returned_2_counters [OF assms(2)] by (simp add: check2_resumes)

lemmas unfold_probe_2 = checkConnectivity_2_def tryEndpoints_returned_2_def on_success_2_def
  await_checkEndpoint_def checkEndpoint_def addToHistory_def updateResponseTimeTracking_def
  slice_def performance_now_def new_Date_def Let_def

subsection \<open>The statistics\<close>

lemma uptime_is_successRate: "uptimePercentage s = successRate s"
  by (simp add: uptimePercentage_def successRate_def)

lemma uptime_zero: "totalChecks s = 0 \<Longrightarrow> uptimePercentage s = 0 \<and> successRate s = 0"
  by (simp add: uptimePercentage_def successRate_def)

lemma average_without_success:
  "\<forall>r \<in> set (connectionHistory s). \<not> isOnline_rec r \<Longrightarrow> averageResponseTime s = 0"
  by (simp add: averageResponseTime_def)

lemma round_two_hundred: "Math_round (binary64 200) = 200"
  by code_simp

lemma average_of_three:
  "connectionHistory s =
     [\<lparr>timestamp = t1, isOnline_rec = True, responseTime_rec = Some 100,
       endpoint_rec = e1, error_rec = None\<rparr>,
      \<lparr>timestamp = t2, isOnline_rec = True, responseTime_rec = Some 200,
       endpoint_rec = e2, error_rec = None\<rparr>,
      \<lparr>timestamp = t3, isOnline_rec = True, responseTime_rec = Some 300,
       endpoint_rec = e3, error_rec = None\<rparr>] \<Longrightarrow>
   averageResponseTime s = 200"
  by (simp add: averageResponseTime_def truthy_def round_two_hundred)

subsection \<open>Await by await\<close>

lemma loop_from_Cons:
  "loop_from env t (ep # rest) (s, calls) =
     (s\<lparr>currentEndpoint := Some (name ep), fetched := fetched s @ [url ep]\<rparr>,
      calls @ [\<lparr>started = t, awaited = ep, remaining = rest,
                 settles_at = clock s + fst (checkEndpoint ep (net env (length (fetched s)) (url ep))),
                 settles_as = snd (checkEndpoint ep (net env (length (fetched s)) (url ep)))\<rparr>])"
  by (simp add: split_beta Let_def)

lemma fetched_clock_swap:
  "(s::ConnectivityService)\<lparr>fetched := f, clock := c\<rparr> = s\<lparr>clock := c, fetched := f\<rparr>"
  by (cases s) simp

lemma alone_agrees:
  "exec env (replicate (attempts env (length (fetched s)) eps) (Settle (length calls)))
     (loop_from env t eps (s, calls)) =
   (finish (checkConnectivity_for env t eps s), calls)"
proof (induction eps arbitrary: s)
  case Nil
  show ?case by (simp add: finish_def)
next
  case (Cons ep eps)
  let ?c = "checkEndpoint ep (net env (length (fetched s)) (url ep))"
  let ?s2 = "s\<lparr>currentEndpoint := Some (name ep), clock := clock s + fst ?c,
                 fetched := fetched s @ [url ep]\<rparr>"
  show ?case
  proof (cases "snd ?c")
    case (Inr resp)
    then show ?thesis
      by (simp add: loop_from_Cons for_Cons await_eq attempt_fails_def finish_def Let_def
          fetched_clock_swap del: checkConnectivity_for.simps loop_from.simps)
  next
    case (Inl err)
    have "exec env (replicate (attempts env (length (fetched s)) (ep # eps)) (Settle (length calls)))
       (loop_from env t (ep # eps) (s, calls)) =
      exec env (replicate (attempts env (length (fetched ?s2)) eps) (Settle (length calls)))
       (loop_from env t eps (?s2, calls))"
      using Inl
      by (simp add: loop_from_Cons attempt_fails_def Let_def fetched_clock_swap
          del: loop_from.simps)
    also have "\<dots> = (finish (checkConnectivity_for env t eps ?s2), calls)"
      by (rule Cons.IH)
    also have "checkConnectivity_for env t eps ?s2 = checkConnectivity_for env t (ep # eps) s"
      using Inl by (simp add: for_Cons await_eq Let_def del: checkConnectivity_for.simps)
    finally show ?thesis .
  qed
qed


lemma alone_agrees_check:
  "exec env (Invoke # replicate (attempts env (length (fetched s)) (endpoints s))
                        (Settle (length calls))) (s, calls) =
   (snd (checkConnectivity env s), calls)"
proof -
  have "exec env (Invoke # replicate (attempts env (length (fetched s)) (endpoints s))
                        (Settle (length calls))) (s, calls) =
    exec env (replicate (attempts env (length (fetched (begin_check s))) (endpoints s))
                        (Settle (length calls)))
      (loop_from env (performance_now s) (endpoints s) (begin_check s, calls))"
    by (simp add: begin_check_def performance_now_def Let_def del: loop_from.simps)
  also have "\<dots> =
    (finish (checkConnectivity_for env (performance_now s) (endpoints s) (begin_check s)), calls)"
    by (rule alone_agrees)
  also have "finish (checkConnectivity_for env (performance_now s) (endpoints s) (begin_check s))
    = snd (checkConnectivity env s)"
    by (simp add: checkConnectivity_eq finish_def Let_def split: prod.splits option.splits)
  finally show ?thesis .
qed

lemma loop_from_counts:
  "totalChecks (fst (loop_from env t eps (s, calls))) = totalChecks s
   \<and> successfulChecks (fst (loop_from env t eps (s, calls))) = successfulChecks s
   \<and> length (snd (loop_from env t eps (s, calls))) \<le> Suc (length calls)
   \<and> (length (connectionHistory s) \<le> 100 \<longrightarrow>
        length (connectionHistory (fst (loop_from env t eps (s, calls)))) \<le> 100)"
proof (cases eps)
  case Nil
  then show ?thesis
    using history_all_failed [of s] by (simp add: all_failed_def addToHistory_def Let_def)
next
  case (Cons ep rest)
  then show ?thesis
    by (simp add: loop_from_Cons del: loop_from.simps)
qed

lemma on_success_counts:
  "totalChecks (snd (on_success e t s)) = totalChecks s
   \<and> successfulChecks (snd (on_success e t s)) = successfulChecks s + 1"
  by (simp add: on_success_def addToHistory_def updateResponseTimeTracking_def Let_def)

lemma act_total:
  "totalChecks (fst (act env a c)) = totalChecks (fst c) + (if a = Invoke then 1 else 0)"
proof (cases c)
  case (Pair s calls)
  show ?thesis
  proof (cases a)
    case Invoke
    with Pair show ?thesis
      using loop_from_counts [of env "performance_now (begin_check s)" "endpoints (begin_check s)"
          "begin_check s" calls]
      by (simp add: Let_def begin_check_def del: loop_from.simps)
  next
    case (Settle i)
    with Pair show ?thesis
      using loop_from_counts [of env "started (calls ! i)" "remaining (calls ! i)"
          "s\<lparr>clock := max (clock s) (settles_at (calls ! i))\<rparr>"
          "take i calls @ drop (Suc i) calls"]
      by (simp add: Let_def on_success_counts del: loop_from.simps split: sum.splits)
  qed (simp_all add: Pair)
qed

lemma act_balanced: "balanced c \<Longrightarrow> balanced (act env a c)"
proof (cases c)
  case (Pair s calls)
  assume b: "balanced c"
  show ?thesis
  proof (cases a)
    case Invoke
    with Pair b show ?thesis
      using loop_from_counts [of env "performance_now (begin_check s)" "endpoints (begin_check s)"
          "begin_check s" calls]
      by (simp add: balanced_def Let_def begin_check_def del: loop_from.simps)
  next
    case (Settle i)
    show ?thesis
    proof (cases "i < length calls")
      case False
      with Pair b Settle show ?thesis by simp
    next
      case True
      let ?s1 = "s\<lparr>clock := max (clock s) (settles_at (calls ! i))\<rparr>"
      let ?others = "take i calls @ drop (Suc i) calls"
      from True have l: "length ?others < length calls" by simp
      show ?thesis
      proof (cases "settles_as (calls ! i)")
        case (Inr resp)
        with Pair b Settle True l show ?thesis
          using on_success_counts [of "awaited (calls ! i)" "started (calls ! i)" ?s1]
            history_on_success [of "awaited (calls ! i)" "started (calls ! i)" ?s1]
          by (simp add: balanced_def Let_def del: length_append length_take length_drop)
      next
        case (Inl err)
        with Pair b Settle True l show ?thesis
          using loop_from_counts [of env "started (calls ! i)" "remaining (calls ! i)" ?s1 ?others]
          by (simp add: balanced_def Let_def
              del: loop_from.simps length_append length_take length_drop)
      qed
    qed
  qed (use Pair b in \<open>simp_all add: balanced_def\<close>)
qed

lemma exec_balanced: "balanced c \<Longrightarrow> balanced (exec env as c)"
  by (induction as arbitrary: c) (simp_all add: act_balanced)

lemma exec_total:
  "totalChecks (fst (exec env as c)) = totalChecks (fst c) + length (filter (\<lambda>a. a = Invoke) as)"
  by (induction as arbitrary: c) (simp_all add: act_total)

lemma interleaved_counters:
  "successfulChecks (fst (exec env as (new_ConnectivityService env eps fb, [])))
     \<le> totalChecks (fst (exec env as (new_ConnectivityService env eps fb, [])))
   \<and> totalChecks (fst (exec env as (new_ConnectivityService env eps fb, []))) =
       length (filter (\<lambda>a. a = Invoke) as)
   \<and> length (connectionHistory (fst (exec env as (new_ConnectivityService env eps fb, [])))) \<le> 100"
proof -
  have "balanced (new_ConnectivityService env eps fb, [])"
    by (simp add: balanced_def new_ConnectivityService_def)
  from exec_balanced [OF this, of env as] exec_total [of env as "(new_ConnectivityService env eps fb, [])"]
  show ?thesis by (simp add: balanced_def new_ConnectivityService_def)
qed

lemma counters_of_checks:
  "totalChecks (snd (checkConnectivity env s)) = totalChecks s + 1
   \<and> successfulChecks (snd (checkConnectivity env s)) =
       (if every_attempt_fails env (length (fetched s)) (endpoints s) then successfulChecks s
        else successfulChecks s + 1)
   \<and> totalChecks (run env evs (new_ConnectivityService env eps fb)) =
       length (filter (\<lambda>ev. ev = Check) evs)
   \<and> successfulChecks (run env evs (new_ConnectivityService env eps fb)) =
       length (filter isOnline_st (results env evs (new_ConnectivityService env eps fb)))
   \<and> successfulChecks (run env evs (new_ConnectivityService env eps fb))
       \<le> totalChecks (run env evs (new_ConnectivityService env eps fb))
   \<and> totalChecks (fst (exec env as (new_ConnectivityService env eps fb, []))) =
       length (filter (\<lambda>a. a = Invoke) as)
   \<and> successfulChecks (fst (exec env as (new_ConnectivityService env eps fb, [])))
       \<le> totalChecks (fst (exec env as (new_ConnectivityService env eps fb, [])))"
proof -
  let ?s0 = "new_ConnectivityService env eps fb"
  have t: "totalChecks (run env evs ?s0) = length (filter (\<lambda>ev. ev = Check) evs)"
    by (simp add: total_run new_ConnectivityService_def)
  have u: "successfulChecks (run env evs ?s0) = length (filter isOnline_st (results env evs ?s0))"
    by (simp add: successful_run new_ConnectivityService_def)
  have "length (filter isOnline_st (results env evs ?s0)) \<le> length (results env evs ?s0)"
    by (rule length_filter_le)
  with t u have "successfulChecks (run env evs ?s0) \<le> totalChecks (run env evs ?s0)"
    by (simp add: length_results)
  with t u counters_1 [of env s] online_iff_answered [of env s]
    interleaved_counters [of env as eps fb]
  show ?thesis by simp
qed

subsection \<open>Records and response times\<close>

lemma set_slice: "set (slice k xs) \<subseteq> set xs"
  by (simp add: slice_def Let_def set_drop_subset)

lemma timed_addToHistory:
  "timed s \<Longrightarrow> isOnline_rec r = (responseTime_rec r \<noteq> None) \<Longrightarrow> timed (addToHistory r s)"
  using set_slice [of "- 100" "connectionHistory s @ [r]"]
  by (auto simp add: timed_def addToHistory_def list_all_iff)

lemma timed_frame:
  "connectionHistory s' = connectionHistory s \<Longrightarrow> timed s \<Longrightarrow> timed s'"
  by (simp add: timed_def)

lemma timed_check: "timed s \<Longrightarrow> timed (snd (checkConnectivity env s))"
proof (cases "every_attempt_fails env (length (fetched s)) (endpoints s)")
  case True
  assume t: "timed s"
  from check_fail_eq [OF True] obtain d where
    e: "checkConnectivity env s =
     all_failed (begin_check s\<lparr>clock := clock s + d,
              fetched := fetched s @ map url (endpoints s),
              currentEndpoint := (if endpoints s = [] then currentEndpoint s
                                  else Some (name (last (endpoints s))))\<rparr>)"
    by blast
  let ?s1 = "begin_check s\<lparr>clock := clock s + d,
              fetched := fetched s @ map url (endpoints s),
              currentEndpoint := (if endpoints s = [] then currentEndpoint s
                                  else Some (name (last (endpoints s)))),
              isOnline := False, lastChecked := Some (int ((clock s + d) div 1000)),
              responseTime := None, error := Some ''All connectivity endpoints failed'',
              isChecking := False\<rparr>"
  have "timed ?s1"
    using t by (simp add: timed_def begin_check_def)
  from timed_addToHistory [OF this, of "\<lparr>timestamp = int ((clock s + d) div 1000),
      isOnline_rec = False, responseTime_rec = None, endpoint_rec = None,
      error_rec = Some ''All connectivity endpoints failed''\<rparr>"]
  show ?thesis
    by (simp add: e all_failed_def Let_def new_Date_def begin_check_def)
next
  case False
  assume t: "timed s"
  from first_success_split [OF False] obtain pre e post where
    "endpoints s = pre @ e # post" "every_attempt_fails env (length (fetched s)) pre"
    "\<not> attempt_fails env (length (fetched s) + length pre) e"
    by blast
  from check_success_eq [OF this] obtain d where
    e: "checkConnectivity env s =
     on_success e (performance_now s)
       (begin_check s\<lparr>currentEndpoint := Some (name e), clock := clock s + d,
           fetched := fetched s @ map url pre @ [url e]\<rparr>)"
    by blast
  show ?thesis
    using t
    apply (simp add: e on_success_def Let_def)
    apply (rule timed_addToHistory)
     apply (simp_all add: timed_def begin_check_def updateResponseTimeTracking_def Let_def)
    done
qed

lemma timed_run: "timed s \<Longrightarrow> timed (run env evs s)"
proof (induction evs arbitrary: s)
  case Nil
  then show ?case by simp
next
  case (Cons ev evs)
  have "timed (fire env ev s)"
    using Cons.prems by (cases ev) (simp_all add: timed_check, simp_all add: timed_def)
  then show ?case by (simp add: Cons.IH)
qed

lemma online_records_timed:
  "r \<in> set (connectionHistory (run env evs (new_ConnectivityService env eps fb))) \<Longrightarrow>
   isOnline_rec r = (responseTime_rec r \<noteq> None)"
proof -
  have "timed (new_ConnectivityService env eps fb)"
    by (simp add: timed_def new_ConnectivityService_def)
  from timed_run [OF this, of env evs] show
    "r \<in> set (connectionHistory (run env evs (new_ConnectivityService env eps fb))) \<Longrightarrow>
     isOnline_rec r = (responseTime_rec r \<noteq> None)"
    by (simp add: timed_def list_all_iff)
qed

section \<open>The claims\<close>

text \<open>
  C1. A call of \<open>checkConnectivity\<close> made while \<open>isChecking\<close> is true is a no-op: it leaves
  \<open>totalChecks\<close> and the history as they are and starts no second round of requests. The
  service of \<open>part_002\<close> does that (lemma \<open>guard_2\<close>). The service of
  \<open>connectivity.service.ts\<close> does not: its first statements run whatever \<open>isChecking\<close> is.
  Below, on a network that is down, \<open>checkConnectivity\<close> is called a second time while the
  first call awaits its first request and \<open>isChecking\<close> is true: \<open>totalChecks\<close> is 2, two
  calls are suspended and the first endpoint has been requested twice. When all the
  requests have settled (each call makes four, eight in all), nothing is suspended,
  \<open>totalChecks\<close> is still 2 and the history holds two records.
\<close>

theorem second_check_counts_again:
  "isChecking (fst (exec env_down [Invoke] (new_ConnectivityService env_down endpoints_http [], [])))
   \<and> totalChecks (fst (exec env_down [Invoke, Invoke]
        (new_ConnectivityService env_down endpoints_http [], []))) = 2
   \<and> length (snd (exec env_down [Invoke, Invoke]
        (new_ConnectivityService env_down endpoints_http [], []))) = 2
   \<and> fetched (fst (exec env_down [Invoke, Invoke]
        (new_ConnectivityService env_down endpoints_http [], []))) =
       [''http://google.com/generate_204'', ''http://google.com/generate_204'']
   \<and> totalChecks (fst (exec env_down two_calls
        (new_ConnectivityService env_down endpoints_http [], []))) = 2
   \<and> length (connectionHistory (fst (exec env_down two_calls
        (new_ConnectivityService env_down endpoints_http [], [])))) = 2
   \<and> length (fetched (fst (exec env_down two_calls
        (new_ConnectivityService env_down endpoints_http [], [])))) = 8
   \<and> snd (exec env_down two_calls
        (new_ConnectivityService env_down endpoints_http [], [])) = []"
  by (simp add: two_calls_def env_down_def new_ConnectivityService_def endpoints_http_def
      unfold_probe)

text \<open>
  C2. Every check that the guard does not skip adds exactly one to \<open>totalChecks\<close>, a
  successful one adds one to \<open>successfulChecks\<close> as well, a failed one leaves it unchanged,
  and \<open>successfulChecks \<le> totalChecks\<close> in every state that the service reaches. The
  service of \<open>connectivity.service.ts\<close> does all of that, at every \<open>await\<close> and however
  the calls overlap: it counts the check in its first statements, before any request
  (lemmas \<open>counters_of_checks\<close> and \<open>interleaved_counters\<close>). The service of \<open>part_002\<close>
  agrees when a check has returned (lemmas \<open>counters_2\<close> and \<open>answered_2\<close>), but not
  while it runs: \<open>tryEndpoints\<close> counts the success, and \<open>checkConnectivity\<close> counts the
  check only when it resumes after \<open>tryEndpoints\<close> has returned (lemmas \<open>check2_resumes\<close>
  and \<open>returned_2_counters\<close>). Below, on a network that answers every request, the first
  check of \<open>part_002\<close> is at that point with \<open>successfulChecks = 1\<close> and
  \<open>totalChecks = 0\<close>; it returns with both at 1. The second check is at that point with
  \<open>successfulChecks = 2\<close> and \<open>totalChecks = 1\<close>, where \<open>uptimePercentage\<close> is 200. The
  service of \<open>connectivity.service.ts\<close>, on the same network and endpoints, has
  \<open>totalChecks = 1\<close> and \<open>successfulChecks = 0\<close> while the call awaits its request, and 1
  and 1 when the request has settled and nothing is suspended.
\<close>

theorem success_counted_before_check:
  "isOnline_st (fst (tryEndpoints_returned_2 env_up
      (new_ConnectivityService env_up endpoints_https fallbackEndpoints_http)))
   \<and> successfulChecks (snd (tryEndpoints_returned_2 env_up
      (new_ConnectivityService env_up endpoints_https fallbackEndpoints_http))) = 1
   \<and> totalChecks (snd (tryEndpoints_returned_2 env_up
      (new_ConnectivityService env_up endpoints_https fallbackEndpoints_http))) = 0
   \<and> isChecking (snd (tryEndpoints_returned_2 env_up
      (new_ConnectivityService env_up endpoints_https fallbackEndpoints_http)))
   \<and> successfulChecks (snd (checkConnectivity_2 env_up
      (new_ConnectivityService env_up endpoints_https fallbackEndpoints_http))) = 1
   \<and> totalChecks (snd (checkConnectivity_2 env_up
      (new_ConnectivityService env_up endpoints_https fallbackEndpoints_http))) = 1
   \<and> successfulChecks (snd (tryEndpoints_returned_2 env_up
      (snd (checkConnectivity_2 env_up
        (new_ConnectivityService env_up endpoints_https fallbackEndpoints_http))))) = 2
   \<and> totalChecks (snd (tryEndpoints_returned_2 env_up
      (snd (checkConnectivity_2 env_up
        (new_ConnectivityService env_up endpoints_https fallbackEndpoints_http))))) = 1
   \<and> uptimePercentage (snd (tryEndpoints_returned_2 env_up
      (snd (checkConnectivity_2 env_up
        (new_ConnectivityService env_up endpoints_https fallbackEndpoints_http))))) = 200
   \<and> successfulChecks (fst (exec env_up [Invoke]
      (new_ConnectivityService env_up endpoints_https fallbackEndpoints_http, []))) = 0
   \<and> totalChecks (fst (exec env_up [Invoke]
      (new_ConnectivityService env_up endpoints_https fallbackEndpoints_http, []))) = 1
   \<and> successfulChecks (fst (exec env_up [Invoke, Settle 0]
      (new_ConnectivityService env_up endpoints_https fallbackEndpoints_http, []))) = 1
   \<and> totalChecks (fst (exec env_up [Invoke, Settle 0]
      (new_ConnectivityService env_up endpoints_https fallbackEndpoints_http, []))) = 1
   \<and> snd (exec env_up [Invoke, Settle 0]
      (new_ConnectivityService env_up endpoints_https fallbackEndpoints_http, [])) = []"
  by (simp add: env_up_def new_ConnectivityService_def endpoints_https_def unfold_probe_2
      unfold_probe exact_readings uptimePercentage_def)

text \<open>
  C3. In every state that the service reaches from its construction, whatever the events
  and the network, and at every \<open>await\<close> of overlapping calls, the connection history
  holds at most 100 records. Appending to a history of 100 records drops exactly the oldest
  one and keeps the others in their order, the new record last; appending to a shorter
  history drops nothing.
\<close>

theorem history_bounded_fifo:
  "length (connectionHistory (run env evs (new_ConnectivityService env eps fb))) \<le> 100
   \<and> length (connectionHistory (fst (exec env as (new_ConnectivityService env eps fb, []))))
       \<le> 100
   \<and> (length (connectionHistory s) = 100 \<longrightarrow>
        connectionHistory (addToHistory r s) = tl (connectionHistory s) @ [r])
   \<and> (length (connectionHistory s) < 100 \<longrightarrow>
        connectionHistory (addToHistory r s) = connectionHistory s @ [r])"
  using interleaved_counters [of env as eps fb]
  by (simp add: history_run new_ConnectivityService_def history_addToHistory slice_100_full
      slice_100_short)

theorem history_bounded_fifo_witness:
  "length (connectionHistory
      (new_ConnectivityService env_down endpoints_http []\<lparr>connectionHistory := history_full\<rparr>)) = 100
   \<and> connectionHistory (addToHistory record_new
        (new_ConnectivityService env_down endpoints_http []\<lparr>connectionHistory := history_full\<rparr>))
       = tl history_full @ [record_new]
   \<and> length (connectionHistory (new_ConnectivityService env_down endpoints_http [])) < 100
   \<and> connectionHistory (addToHistory record_new (new_ConnectivityService env_down endpoints_http []))
       = [record_new]"
  using history_bounded_fifo [of env_down "[]" endpoints_http "[]" "[]"
      "new_ConnectivityService env_down endpoints_http []\<lparr>connectionHistory := history_full\<rparr>"
      record_new]
    history_bounded_fifo [of env_down "[]" endpoints_http "[]" "[]"
      "new_ConnectivityService env_down endpoints_http []" record_new]
  by (simp add: history_full_def new_ConnectivityService_def)

text \<open>
  C4. When every attempt of a probe fails (in \<open>part_003\<close>: every attempt on the primary
  list, and the fallback list is not tried or every attempt on it fails too), the probe
  records a failure: the service is offline, \<open>lastChecked\<close> is stamped, the response time
  is \<open>null\<close>, the error is "All connectivity endpoints failed", one failure record
  (offline, no response time, no endpoint) is appended to the history, \<open>totalChecks\<close> is
  one more, \<open>successfulChecks\<close> is unchanged and \<open>isChecking\<close> is cleared.
\<close>

theorem all_endpoints_failed:
  "(every_attempt_fails env (length (fetched s)) (endpoints s) \<longrightarrow>
      failure_recorded s (checkConnectivity env s))
   \<and> (every_attempt_fails env (length (fetched s3)) (endpoints s3)
        \<and> (\<not> shouldTryHttpFallback env
             \<or> every_attempt_fails env (length (fetched s3) + length (endpoints s3))
                  (fallbackEndpoints s3)) \<longrightarrow>
      failure_recorded s3 (checkConnectivity_3 env s3))"
  using failed_1 [of env s] failed_3 [of env s3] by blast

theorem all_endpoints_failed_witness:
  "every_attempt_fails env_down
      (length (fetched (new_ConnectivityService env_down endpoints_http [])))
      (endpoints (new_ConnectivityService env_down endpoints_http []))
   \<and> failure_recorded (new_ConnectivityService env_down endpoints_http [])
        (checkConnectivity env_down (new_ConnectivityService env_down endpoints_http []))
   \<and> every_attempt_fails env_down
      (length (fetched (new_ConnectivityService env_down endpoints_https fallbackEndpoints_http)))
      (endpoints (new_ConnectivityService env_down endpoints_https fallbackEndpoints_http))
   \<and> \<not> shouldTryHttpFallback env_down
   \<and> failure_recorded (new_ConnectivityService env_down endpoints_https fallbackEndpoints_http)
        (checkConnectivity_3 env_down
          (new_ConnectivityService env_down endpoints_https fallbackEndpoints_http))"
  using all_endpoints_failed [of env_down "new_ConnectivityService env_down endpoints_http []"
      "new_ConnectivityService env_down endpoints_https fallbackEndpoints_http"]
  by (simp add: new_ConnectivityService_def env_down_def endpoints_http_def endpoints_https_def
      attempt_fails_def checkEndpoint_def shouldTryHttpFallback_def)

text \<open>
  C5. A probe tries the endpoints in the order of the list and stops at the first attempt
  that succeeds (when every attempt fails, its requests are those to the whole list, in
  order and once each): when the attempts at the endpoints \<open>pre\<close> fail and the attempt at the next
  endpoint \<open>e\<close> succeeds, the requests of the probe are those to \<open>pre\<close>, in order and once
  each, then the one to \<open>e\<close>, and the probe records a success at \<open>e\<close>: the service is online,
  \<open>currentEndpoint\<close> is the name of \<open>e\<close>, the response time is not negative and one online
  record is appended to the history. An attempt succeeds exactly when the response comes
  before the abort timer fires and is opaque or has a status of the endpoint's accepted
  list; a rejected request, a timeout and any other status are failures.
\<close>

theorem first_success_wins:
  "(endpoints s = pre @ e # post
      \<and> every_attempt_fails env (length (fetched s)) pre
      \<and> \<not> attempt_fails env (length (fetched s) + length pre) e \<longrightarrow>
    success_recorded s e (checkConnectivity env s)
      \<and> fetched (snd (checkConnectivity env s)) = fetched s @ map url pre @ [url e])
   \<and> (every_attempt_fails env (length (fetched s)) (endpoints s) \<longrightarrow>
        fetched (snd (checkConnectivity env s)) = fetched s @ map url (endpoints s))
   \<and> (\<not> attempt_fails env n ep \<longleftrightarrow>
        (\<exists>d resp. net env n (url ep) = Resolves d resp
           \<and> d < 1000 * (case timeout ep of None \<Rightarrow> 3000 | Some t \<Rightarrow> if t = 0 then 3000 else t)
           \<and> (rtype resp = Opaque \<or> status resp \<in> set (expectedStatus ep))))"
proof -
  have "every_attempt_fails env (length (fetched s)) (endpoints s) \<Longrightarrow>
        fetched (snd (checkConnectivity env s)) = fetched s @ map url (endpoints s)"
  proof -
    assume "every_attempt_fails env (length (fetched s)) (endpoints s)"
    from check_fail_eq [OF this] obtain d where
      "checkConnectivity env s =
       all_failed (begin_check s\<lparr>clock := clock s + d,
              fetched := fetched s @ map url (endpoints s),
              currentEndpoint := (if endpoints s = [] then currentEndpoint s
                                  else Some (name (last (endpoints s))))\<rparr>)"
      by blast
    then show ?thesis by simp
  qed
  with succeeded_1 [of s pre e post env] attempt_succeeds_iff [of env n ep] show ?thesis
    by blast
qed

text \<open>
  The case of the specification: the first endpoint never answers (its request is aborted
  after 3000 ms), the second answers with status 204 after 42 ms.
\<close>

theorem first_success_wins_witness:
  "endpoints (new_ConnectivityService env_second_answers endpoints_http []) =
       [endpoints_http ! 0] @ (endpoints_http ! 1) # drop 2 endpoints_http
   \<and> every_attempt_fails env_second_answers 0 [endpoints_http ! 0]
   \<and> \<not> attempt_fails env_second_answers 1 (endpoints_http ! 1)
   \<and> success_recorded (new_ConnectivityService env_second_answers endpoints_http [])
        (endpoints_http ! 1) (checkConnectivity env_second_answers (new_ConnectivityService env_second_answers endpoints_http []))
   \<and> fetched (snd (checkConnectivity env_second_answers (new_ConnectivityService env_second_answers endpoints_http []))) =
       [''http://google.com/generate_204'', ''http://cp.cloudflare.com/generate_204'']
   \<and> name (endpoints_http ! 1) = ''Cloudflare''
   \<and> every_attempt_fails env_down 0 endpoints_http
   \<and> fetched (snd (checkConnectivity env_down
        (new_ConnectivityService env_down endpoints_http []))) = map url endpoints_http"
proof -
  have g: "every_attempt_fails env_down 0 endpoints_http"
    "fetched (new_ConnectivityService env_down endpoints_http []) = []"
    "endpoints (new_ConnectivityService env_down endpoints_http []) = endpoints_http"
    by (simp_all add: env_down_def new_ConnectivityService_def endpoints_http_def
        attempt_fails_def checkEndpoint_def)
  from g first_success_wins [of "new_ConnectivityService env_down endpoints_http []" "[]"
      "endpoints_http ! 0" "[]" env_down]
  have k: "fetched (snd (checkConnectivity env_down
        (new_ConnectivityService env_down endpoints_http []))) = map url endpoints_http"
    by simp
  have h: "endpoints (new_ConnectivityService env_second_answers endpoints_http []) =
       [endpoints_http ! 0] @ (endpoints_http ! 1) # drop 2 endpoints_http
   \<and> every_attempt_fails env_second_answers (length (fetched (new_ConnectivityService env_second_answers endpoints_http []))) [endpoints_http ! 0]
   \<and> \<not> attempt_fails env_second_answers
         (length (fetched (new_ConnectivityService env_second_answers endpoints_http [])) + length [endpoints_http ! 0]) (endpoints_http ! 1)"
    by (simp add: new_ConnectivityService_def env_second_answers_def endpoints_http_def
        attempt_fails_def checkEndpoint_def)
  have f: "fetched (new_ConnectivityService env_second_answers endpoints_http []) = []" "name (endpoints_http ! 1) = ''Cloudflare''"
    "map url [endpoints_http ! 0] @ [url (endpoints_http ! 1)] =
       [''http://google.com/generate_204'', ''http://cp.cloudflare.com/generate_204'']"
    by (simp_all add: new_ConnectivityService_def endpoints_http_def)
  from h first_success_wins [of "new_ConnectivityService env_second_answers endpoints_http []" "[endpoints_http ! 0]" "endpoints_http ! 1"
      "drop 2 endpoints_http" env_second_answers]
  have "success_recorded (new_ConnectivityService env_second_answers endpoints_http [])
        (endpoints_http ! 1) (checkConnectivity env_second_answers (new_ConnectivityService env_second_answers endpoints_http []))
   \<and> fetched (snd (checkConnectivity env_second_answers (new_ConnectivityService env_second_answers endpoints_http []))) =
       fetched (new_ConnectivityService env_second_answers endpoints_http []) @ map url [endpoints_http ! 0] @ [url (endpoints_http ! 1)]"
    by blast
  with h f g k show ?thesis by simp
qed

text \<open>
  C6. \<open>uptimePercentage\<close> and \<open>successRate\<close> are the same value (lemma
  \<open>uptime_is_successRate\<close>), 0 when no check has been made (lemma \<open>uptime_zero\<close>), and
  otherwise \<open>round(100 * successfulChecks / totalChecks)\<close>. The code divides first and
  multiplies then, in binary64 arithmetic. After 40 checks of which 23 succeeded the exact
  value is 57.5, which rounds to 58; the quotient \<open>23 / 40\<close> is rounded to a binary64
  value just below 0.575, the product with 100 to one just below 57.5, and \<open>Math.round\<close>
  gives 57.
\<close>

theorem uptime_rounds_half_down:
  "uptimePercentage
      (new_ConnectivityService env_down endpoints_http []
         \<lparr>totalChecks := 40, successfulChecks := 23\<rparr>) = 57
   \<and> successRate
      (new_ConnectivityService env_down endpoints_http []
         \<lparr>totalChecks := 40, successfulChecks := 23\<rparr>) = 57
   \<and> binary64 (binary64 (23 / 40) * 100) = 8092405580431359 / 140737488355328
   \<and> Math_round (100 * 23 / 40) = 58"
  by code_simp

text \<open>
  C7. \<open>averageResponseTime\<close> is the rounded mean of the response times of the online
  records of the history, 0 when there is none (lemma \<open>average_without_success\<close>), and 200
  for the response times 100, 200, 300 (lemma \<open>average_of_three\<close>). The filter of the code,
  \<open>r.isOnline && r.responseTime\<close>, also drops an online record whose response time is 0;
  as an online record always has a response time (lemma \<open>online_records_timed\<close>), those
  are the only records that its second operand drops. Below, two checks succeed, the
  first within 0.2 ms (a response time of 0) and the second after 100 ms: both records are
  online, their mean is 50, and \<open>averageResponseTime\<close> is 100.
\<close>

theorem zero_response_time_dropped_from_average:
  "map isOnline_rec (connectionHistory (run env_fast_then_slow [Check, Check]
      (new_ConnectivityService env_fast_then_slow endpoints_http []))) = [True, True]
   \<and> map responseTime_rec (connectionHistory (run env_fast_then_slow [Check, Check]
      (new_ConnectivityService env_fast_then_slow endpoints_http []))) = [Some 0, Some 100]
   \<and> averageResponseTime (run env_fast_then_slow [Check, Check]
      (new_ConnectivityService env_fast_then_slow endpoints_http [])) = 100
   \<and> Math_round (binary64 ((0 + 100) / 2)) = 50"
  by (simp add: env_fast_then_slow_def new_ConnectivityService_def endpoints_http_def
      unfold_probe averageResponseTime_def truthy_def round_fifth round_second round_hundred
      round_fifty)

text \<open>
  C8. \<open>minResponseTime\<close> and \<open>maxResponseTime\<close> are the smallest and the largest response
  time of all the successful checks made since the service was constructed (\<open>null\<close> when
  there was none), whatever the length of the run, hence whatever has been evicted from
  the history. They are updated by the check itself: a check on which every request fails
  leaves them as they are; a check on which an endpoint answers measures the time from
  its start to the answer, returns it, and replaces the minimum by it when it is smaller
  (or the minimum is \<open>null\<close>) and the maximum when it is larger. They do not read the
  history: a run from a state whose history has been replaced by any other, a truncated
  one for instance, ends with the same extrema. Three checks on a network that answers
  after 50, 200 and 30 ms measure 50, 200 and 30, and leave 30 and 200; a fourth check,
  which the network refuses, fails and leaves 30 and 200. So does
  \<open>updateResponseTimeTracking\<close> called with 50, 200 and 30.
\<close>

theorem lifetime_extrema:
  "minResponseTime (run env evs (new_ConnectivityService env eps fb)) =
     (if successful_times env evs (new_ConnectivityService env eps fb) = [] then None
      else Some (Min (set (successful_times env evs (new_ConnectivityService env eps fb)))))
   \<and> maxResponseTime (run env evs (new_ConnectivityService env eps fb)) =
     (if successful_times env evs (new_ConnectivityService env eps fb) = [] then None
      else Some (Max (set (successful_times env evs (new_ConnectivityService env eps fb)))))
   \<and> responseTime_st (fst (checkConnectivity env s)) =
     (if every_attempt_fails env (length (fetched s)) (endpoints s) then None
      else Some (measured env s))
   \<and> minResponseTime (snd (checkConnectivity env s)) =
     (if every_attempt_fails env (length (fetched s)) (endpoints s) then minResponseTime s
      else lower (measured env s) (minResponseTime s))
   \<and> maxResponseTime (snd (checkConnectivity env s)) =
     (if every_attempt_fails env (length (fetched s)) (endpoints s) then maxResponseTime s
      else higher (measured env s) (maxResponseTime s))
   \<and> minResponseTime (run env evs (s\<lparr>connectionHistory := h\<rparr>)) = minResponseTime (run env evs s)
   \<and> maxResponseTime (run env evs (s\<lparr>connectionHistory := h\<rparr>)) = maxResponseTime (run env evs s)
   \<and> successful_times env_three [Check, Check, Check]
        (new_ConnectivityService env_three endpoints_http []) = [50, 200, 30]
   \<and> minResponseTime (run env_three [Check, Check, Check]
        (new_ConnectivityService env_three endpoints_http [])) = Some 30
   \<and> maxResponseTime (run env_three [Check, Check, Check]
        (new_ConnectivityService env_three endpoints_http [])) = Some 200
   \<and> map isOnline_st (results env_three [Check, Check, Check, Check]
        (new_ConnectivityService env_three endpoints_http [])) = [True, True, True, False]
   \<and> minResponseTime (run env_three [Check, Check, Check, Check]
        (new_ConnectivityService env_three endpoints_http [])) = Some 30
   \<and> maxResponseTime (run env_three [Check, Check, Check, Check]
        (new_ConnectivityService env_three endpoints_http [])) = Some 200
   \<and> minResponseTime (fold updateResponseTimeTracking [50, 200, 30]
        (new_ConnectivityService env eps fb)) = Some 30
   \<and> maxResponseTime (fold updateResponseTimeTracking [50, 200, 30]
        (new_ConnectivityService env eps fb)) = Some 200"
proof -
  let ?s0 = "new_ConnectivityService env eps fb"
  let ?s3 = "new_ConnectivityService env_three endpoints_http []"
  have n: "minResponseTime ?s0 = None" "maxResponseTime ?s0 = None"
    by (simp_all add: new_ConnectivityService_def)
  have a: "minResponseTime (run env evs ?s0) =
     (if successful_times env evs ?s0 = [] then None
      else Some (Min (set (successful_times env evs ?s0))))"
    using tracking_run [of env evs ?s0] by (simp only: n fold_lower_None)
  have b: "maxResponseTime (run env evs ?s0) =
     (if successful_times env evs ?s0 = [] then None
      else Some (Max (set (successful_times env evs ?s0))))"
    using tracking_run [of env evs ?s0] by (simp only: n fold_higher_None)
  have c: "minResponseTime (fold updateResponseTimeTracking [50, 200, 30] ?s0) = Some 30"
    "maxResponseTime (fold updateResponseTimeTracking [50, 200, 30] ?s0) = Some 200"
    by (simp_all add: tracking_update n lower_def higher_def)
  have d: "successful_times env_three [Check, Check, Check] ?s3 = [50, 200, 30]"
    by (simp add: successful_times_def map_filter_simps env_three_def new_ConnectivityService_def
        endpoints_http_def unfold_probe exact_readings)
  have e: "minResponseTime (run env_three [Check, Check, Check] ?s3) = Some 30"
    "maxResponseTime (run env_three [Check, Check, Check] ?s3) = Some 200"
    by (simp_all add: env_three_def new_ConnectivityService_def endpoints_http_def unfold_probe
        exact_readings)
  have f: "map isOnline_st (results env_three [Check, Check, Check, Check] ?s3) =
      [True, True, True, False]"
    "minResponseTime (run env_three [Check, Check, Check, Check] ?s3) = Some 30"
    "maxResponseTime (run env_three [Check, Check, Check, Check] ?s3) = Some 200"
    by (simp_all add: env_three_def new_ConnectivityService_def endpoints_http_def unfold_probe
        exact_readings)
  from a b c d e f check_measures [of env s]
    extrema_ignore_history [where env = env and evs = evs and s = s and h = h]
  show ?thesis by simp
qed

theorem lifetime_extrema_witness:
  "\<not> every_attempt_fails env_three 0 endpoints_http
   \<and> measured env_three (new_ConnectivityService env_three endpoints_http []) = 50
   \<and> responseTime_st (fst (checkConnectivity env_three
        (new_ConnectivityService env_three endpoints_http []))) = Some 50
   \<and> minResponseTime (snd (checkConnectivity env_three
        (new_ConnectivityService env_three endpoints_http []))) = Some 50
   \<and> maxResponseTime (snd (checkConnectivity env_three
        (new_ConnectivityService env_three endpoints_http []))) = Some 50
   \<and> every_attempt_fails env_down 0 endpoints_http
   \<and> responseTime_st (fst (checkConnectivity env_down
        ((new_ConnectivityService env_down endpoints_http [])
           \<lparr>minResponseTime := Some 30, maxResponseTime := Some 200\<rparr>))) = None
   \<and> minResponseTime (snd (checkConnectivity env_down
        ((new_ConnectivityService env_down endpoints_http [])
           \<lparr>minResponseTime := Some 30, maxResponseTime := Some 200\<rparr>))) = Some 30
   \<and> maxResponseTime (snd (checkConnectivity env_down
        ((new_ConnectivityService env_down endpoints_http [])
           \<lparr>minResponseTime := Some 30, maxResponseTime := Some 200\<rparr>))) = Some 200"
  using lifetime_extrema [where env = env_three
      and s = "new_ConnectivityService env_three endpoints_http []"]
    lifetime_extrema [where env = env_down
      and s = "(new_ConnectivityService env_down endpoints_http [])
           \<lparr>minResponseTime := Some 30, maxResponseTime := Some 200\<rparr>"]
  by (simp add: env_three_def env_down_def new_ConnectivityService_def endpoints_http_def
      attempt_fails_def checkEndpoint_def measured_def lower_def higher_def exact_readings)

text \<open>
  C9. In \<open>part_003\<close>, with a fallback list that is not empty and shares no URL with the
  primary list, a probe sends a request to a fallback endpoint exactly when every attempt on the
  primary list has failed and \<open>shouldTryHttpFallback\<close> holds. The requests of a probe are a
  prefix of the primary list followed by a prefix of the fallback list, in order: nothing
  else is requested, so the predicate sends nothing. It reads \<open>window.location\<close> only:
  it holds when the protocol is \<open>http:\<close> or the host name is \<open>localhost\<close>.
\<close>

theorem fallback_only_when_needed:
  assumes ne: "fallbackEndpoints s \<noteq> []"
    and dj: "url ` set (endpoints s) \<inter> url ` set (fallbackEndpoints s) = {}"
  shows "(set (drop (length (fetched s)) (fetched (snd (checkConnectivity_3 env s))))
            \<inter> url ` set (fallbackEndpoints s) \<noteq> {}
          \<longleftrightarrow> every_attempt_fails env (length (fetched s)) (endpoints s)
               \<and> shouldTryHttpFallback env)
       \<and> (\<exists>k j. drop (length (fetched s)) (fetched (snd (checkConnectivity_3 env s))) =
                  map url (take k (endpoints s)) @ map url (take j (fallbackEndpoints s)))
       \<and> (shouldTryHttpFallback env \<longleftrightarrow>
            location_protocol env = ''http:'' \<or> location_hostname env = ''localhost'')"
proof -
  let ?new = "drop (length (fetched s)) (fetched (snd (checkConnectivity_3 env s)))"
  let ?A = "every_attempt_fails env (length (fetched s)) (endpoints s)"
  from fetched_3 [of s env] obtain k j where
    kj: "fetched (snd (checkConnectivity_3 env s)) =
         fetched s @ map url (take k (endpoints s)) @ map url (take j (fallbackEndpoints s))"
    and j: "0 < j \<longleftrightarrow> ?A \<and> shouldTryHttpFallback env \<and> fallbackEndpoints s \<noteq> []"
    by blast
  have new: "?new = map url (take k (endpoints s)) @ map url (take j (fallbackEndpoints s))"
    by (simp add: kj)
  have "set ?new \<inter> url ` set (fallbackEndpoints s) \<noteq> {} \<longleftrightarrow> 0 < j"
  proof
    assume "0 < j"
    with ne obtain x xs where "take j (fallbackEndpoints s) = x # xs"
      by (cases "take j (fallbackEndpoints s)") auto
    then have "url x \<in> set ?new" "x \<in> set (fallbackEndpoints s)"
      using new in_set_takeD [of x j "fallbackEndpoints s"] by simp_all
    then show "set ?new \<inter> url ` set (fallbackEndpoints s) \<noteq> {}" by blast
  next
    assume a: "set ?new \<inter> url ` set (fallbackEndpoints s) \<noteq> {}"
    show "0 < j"
    proof (rule ccontr)
      assume "\<not> 0 < j"
      then have "set ?new \<subseteq> url ` set (endpoints s)"
        using new set_take_subset [of k "endpoints s"] by auto
      with dj a show False by blast
    qed
  qed
  with j ne new show ?thesis
    by (simp add: shouldTryHttpFallback_def) blast
qed

theorem fallback_only_when_needed_witness:
  "fallbackEndpoints (new_ConnectivityService env_http_only endpoints_https fallbackEndpoints_http) \<noteq> []
   \<and> url ` set (endpoints (new_ConnectivityService env_http_only endpoints_https fallbackEndpoints_http)) \<inter> url ` set (fallbackEndpoints (new_ConnectivityService env_http_only endpoints_https fallbackEndpoints_http)) = {}
   \<and> every_attempt_fails env_http_only 0 endpoints_https
   \<and> shouldTryHttpFallback env_http_only
   \<and> set (drop (length (fetched (new_ConnectivityService env_http_only endpoints_https fallbackEndpoints_http))) (fetched (snd (checkConnectivity_3 env_http_only (new_ConnectivityService env_http_only endpoints_https fallbackEndpoints_http)))))
        \<inter> url ` set (fallbackEndpoints (new_ConnectivityService env_http_only endpoints_https fallbackEndpoints_http)) \<noteq> {}"
proof -
  have h: "fallbackEndpoints (new_ConnectivityService env_http_only endpoints_https fallbackEndpoints_http) \<noteq> []"
    "url ` set (endpoints (new_ConnectivityService env_http_only endpoints_https fallbackEndpoints_http)) \<inter> url ` set (fallbackEndpoints (new_ConnectivityService env_http_only endpoints_https fallbackEndpoints_http)) = {}"
    by (simp_all add: new_ConnectivityService_def endpoints_https_def fallbackEndpoints_http_def)
  have a: "every_attempt_fails env_http_only 0 endpoints_https"
    "shouldTryHttpFallback env_http_only"
    by (simp_all add: env_http_only_def endpoints_https_def attempt_fails_def checkEndpoint_def
        shouldTryHttpFallback_def)
  have e: "length (fetched (new_ConnectivityService env_http_only endpoints_https fallbackEndpoints_http)) = 0" "endpoints (new_ConnectivityService env_http_only endpoints_https fallbackEndpoints_http) = endpoints_https"
    by (simp_all add: new_ConnectivityService_def)
  from fallback_only_when_needed [OF h, of env_http_only] a e
  have "set (drop (length (fetched (new_ConnectivityService env_http_only endpoints_https fallbackEndpoints_http))) (fetched (snd (checkConnectivity_3 env_http_only (new_ConnectivityService env_http_only endpoints_https fallbackEndpoints_http)))))
        \<inter> url ` set (fallbackEndpoints (new_ConnectivityService env_http_only endpoints_https fallbackEndpoints_http)) \<noteq> {}"
    by simp
  with h a show ?thesis by simp
qed

text \<open>
  C10. The failure path does not reset \<open>currentEndpoint\<close>. After a probe of which every
  attempt failed, it holds the name of the last endpoint tried: the last of the list (in
  \<open>part_003\<close> the last of the fallback list when that list was tried and is not empty),
  or its former value when no endpoint was tried. The service is then offline with a
  \<open>currentEndpoint\<close> that need not be \<open>null\<close>, while the status returned and the record
  appended to the history have no endpoint.
\<close>

theorem stale_endpoint_after_failure:
  "(every_attempt_fails env (length (fetched s)) (endpoints s) \<longrightarrow>
      currentEndpoint (snd (checkConnectivity env s)) =
           (if endpoints s = [] then currentEndpoint s else Some (name (last (endpoints s))))
       \<and> \<not> isOnline (snd (checkConnectivity env s))
       \<and> endpoint_st (fst (checkConnectivity env s)) = None
       \<and> endpoint_rec (last (connectionHistory (snd (checkConnectivity env s)))) = None
       \<and> \<not> isOnline_rec (last (connectionHistory (snd (checkConnectivity env s)))))
   \<and> (every_attempt_fails env (length (fetched s3)) (endpoints s3)
        \<and> (\<not> shouldTryHttpFallback env
             \<or> every_attempt_fails env (length (fetched s3) + length (endpoints s3))
                  (fallbackEndpoints s3)) \<longrightarrow>
      currentEndpoint (snd (checkConnectivity_3 env s3)) =
           (if shouldTryHttpFallback env \<and> fallbackEndpoints s3 \<noteq> []
            then Some (name (last (fallbackEndpoints s3)))
            else if endpoints s3 = [] then currentEndpoint s3
            else Some (name (last (endpoints s3))))
       \<and> \<not> isOnline (snd (checkConnectivity_3 env s3))
       \<and> endpoint_st (fst (checkConnectivity_3 env s3)) = None
       \<and> endpoint_rec (last (connectionHistory (snd (checkConnectivity_3 env s3)))) = None
       \<and> \<not> isOnline_rec (last (connectionHistory (snd (checkConnectivity_3 env s3)))))"
  using stale_endpoint_1 [of env s] stale_endpoint_3 [of env s3] by blast

theorem stale_endpoint_after_failure_witness:
  "every_attempt_fails env_down (length (fetched (new_ConnectivityService env_down endpoints_http []))) (endpoints (new_ConnectivityService env_down endpoints_http []))
   \<and> currentEndpoint (snd (checkConnectivity env_down (new_ConnectivityService env_down endpoints_http []))) = Some ''Ubuntu''
   \<and> \<not> isOnline (snd (checkConnectivity env_down (new_ConnectivityService env_down endpoints_http [])))
   \<and> endpoint_st (fst (checkConnectivity env_down (new_ConnectivityService env_down endpoints_http []))) = None
   \<and> endpoint_rec (last (connectionHistory (snd (checkConnectivity env_down (new_ConnectivityService env_down endpoints_http []))))) = None
   \<and> every_attempt_fails env_down (length (fetched (new_ConnectivityService env_down endpoints_https fallbackEndpoints_http))) (endpoints (new_ConnectivityService env_down endpoints_https fallbackEndpoints_http))
   \<and> \<not> shouldTryHttpFallback env_down
   \<and> currentEndpoint (snd (checkConnectivity_3 env_down (new_ConnectivityService env_down endpoints_https fallbackEndpoints_http))) = Some ''Mozilla''
   \<and> \<not> isOnline (snd (checkConnectivity_3 env_down (new_ConnectivityService env_down endpoints_https fallbackEndpoints_http)))
   \<and> endpoint_rec (last (connectionHistory (snd (checkConnectivity_3 env_down (new_ConnectivityService env_down endpoints_https fallbackEndpoints_http))))) = None"
  using stale_endpoint_after_failure [of env_down "new_ConnectivityService env_down endpoints_http []" "new_ConnectivityService env_down endpoints_https fallbackEndpoints_http"]
  by (simp add: new_ConnectivityService_def env_down_def endpoints_http_def endpoints_https_def
      attempt_fails_def checkEndpoint_def shouldTryHttpFallback_def)

end
